theory Spec2Isabelle
  imports Complex_Main "HOL-Library.Multiset" "HOL-Library.Product_Lexorder"
    "HOL-Library.List_Lexorder" "HOL-Library.Char_ord"
begin

section \<open>Python values and exceptions\<close>

text \<open>
  The module \<^verbatim>\<open>lab2/ncf/src/inference.py\<close> is a request handler: it reads a JSON batch,
  extracts an item id from each instance, posts the body to a model server and ranks the
  returned scores. Its functions are embedded below under their names, the helpers
  before the handler that calls them; \<^verbatim>\<open>_process_input\<close> and \<^verbatim>\<open>_process_output\<close>
  lose the leading underscore, which a name cannot start with here.

  A raised exception is a value of \<open>pyerror\<close>; a computation that may raise returns
  \<open>pyerror + 'a\<close>, with \<open>Inl\<close> for the exception. The constructors are the Python
  exception classes the handler and the library calls it makes can raise.
  \<open>Unmodelled\<close> is not a Python exception: it marks the one place where the embedding
  does not follow the source (sorting 64 or more keys that \<^verbatim>\<open><\<close> does not order
  linearly).
\<close>

datatype pyerror =
    ValueError string
  | KeyError string
  | TypeError
  | IndexError
  | AttributeError
  | JSONDecodeError
  | UnicodeDecodeError
  | RequestException
  | Unmodelled

text \<open>
  The objects \<^verbatim>\<open>json.loads\<close> returns: \<^verbatim>\<open>None\<close>, \<^verbatim>\<open>bool\<close>, \<^verbatim>\<open>int\<close>, \<^verbatim>\<open>float\<close>,
  \<^verbatim>\<open>str\<close>, \<^verbatim>\<open>list\<close> and \<^verbatim>\<open>dict\<close> (an association list in insertion order, read with
  \<open>map_of\<close>; the dicts the handler builds have distinct keys). A finite float is the
  rational number the double denotes, so that the order and the equality of ints and
  floats are those of Python. The floats that are no such number have constructors of
  their own: \<^verbatim>\<open>nan\<close> and the infinities, which \<^verbatim>\<open>json.loads\<close> returns for the literals
  \<^verbatim>\<open>NaN\<close>, \<^verbatim>\<open>Infinity\<close> and \<^verbatim>\<open>-Infinity\<close> (each literal always as the same object),
  and the negative zero \<^verbatim>\<open>-0.0\<close>.
\<close>

datatype json =
    JNull
  | JBool bool
  | JInt int
  | JFloat rat
  | JNaN
  | JInfinity
  | JNegInfinity
  | JNegZero
  | JStr string
  | JArr "json list"
  | JObj "(string \<times> json) list"

text \<open>The HTTP response of \<^verbatim>\<open>requests.post\<close>: \<^verbatim>\<open>status_code\<close> and the bytes \<^verbatim>\<open>content\<close>.\<close>

record response =
  status_code :: int
  content :: string

text \<open>The \<^verbatim>\<open>context\<close> argument of the handler; a header that is absent is \<open>None\<close>.\<close>

record request_context =
  request_content_type :: "string option"
  accept_header :: "string option"
  rest_uri :: string

text \<open>
  What the handler calls and this repository does not define: \<^verbatim>\<open>bytes.decode('utf-8')\<close>,
  \<^verbatim>\<open>json.loads\<close>, the \<^verbatim>\<open>repr\<close> of a float (used by \<^verbatim>\<open>json.dumps\<close>) and
  \<^verbatim>\<open>requests.post\<close> with the model server behind it. They are parameters: every theorem
  below holds for whatever these functions return.
\<close>

record library =
  bytes_decode :: "string \<Rightarrow> pyerror + string"
  json_loads :: "string \<Rightarrow> pyerror + json"
  float_repr :: "rat \<Rightarrow> string"
  requests_post :: "string \<Rightarrow> string \<Rightarrow> pyerror + response"

section \<open>The operations of Python the handler uses\<close>

text \<open>\<^verbatim>\<open>obj[key]\<close> for a string key: only a dict has string keys.\<close>

fun py_getitem :: "json \<Rightarrow> string \<Rightarrow> pyerror + json" where
  "py_getitem (JObj kvs) k = (case map_of kvs k of None \<Rightarrow> Inl (KeyError k) | Some v \<Rightarrow> Inr v)"
| "py_getitem _ k = Inl TypeError"

text \<open>\<^verbatim>\<open>p[0]\<close>: the first element of a list or of a string, the key \<^verbatim>\<open>0\<close> of a dict.\<close>

fun py_getitem0 :: "json \<Rightarrow> pyerror + json" where
  "py_getitem0 (JArr []) = Inl IndexError"
| "py_getitem0 (JArr (x # xs)) = Inr x"
| "py_getitem0 (JStr []) = Inl IndexError"
| "py_getitem0 (JStr (c # cs)) = Inr (JStr [c])"
| "py_getitem0 (JObj kvs) = Inl (KeyError ''0'')"
| "py_getitem0 _ = Inl TypeError"

text \<open>Iteration (\<^verbatim>\<open>for ... in\<close>, \<^verbatim>\<open>zip\<close>): a list gives its elements, a dict its keys, a
  string its characters; nothing else is iterable.\<close>

fun py_iter :: "json \<Rightarrow> pyerror + json list" where
  "py_iter (JArr xs) = Inr xs"
| "py_iter (JObj kvs) = Inr (map (\<lambda>kv. JStr (fst kv)) kvs)"
| "py_iter (JStr s) = Inr (map (\<lambda>c. JStr [c]) s)"
| "py_iter _ = Inl TypeError"

text \<open>\<^verbatim>\<open>x == n\<close> for an int \<^verbatim>\<open>n\<close>: true of the int, the float and the bool of that value.\<close>

fun py_eq_int :: "json \<Rightarrow> int \<Rightarrow> bool" where
  "py_eq_int (JInt i) n = (i = n)"
| "py_eq_int (JFloat r) n = (r = of_int n)"
| "py_eq_int (JBool b) n = ((if b then 1 else 0) = n)"
| "py_eq_int JNegZero n = (n = 0)"
| "py_eq_int _ n = False"

text \<open>\<^verbatim>\<open>list.index(1)\<close>: the index of the first element equal to 1, or a \<^verbatim>\<open>ValueError\<close>.\<close>

fun list_index :: "json list \<Rightarrow> pyerror + nat" where
  "list_index [] = Inl (ValueError ''1 is not in list'')"
| "list_index (x # xs) =
     (if py_eq_int x 1 then Inr 0
      else (case list_index xs of Inl e \<Rightarrow> Inl e | Inr i \<Rightarrow> Inr (Suc i)))"

text \<open>\<^verbatim>\<open>v.index(1)\<close>: a string wants a string argument, other objects have no \<^verbatim>\<open>index\<close>.\<close>

fun py_index :: "json \<Rightarrow> pyerror + nat" where
  "py_index (JArr xs) = list_index xs"
| "py_index (JStr s) = Inl TypeError"
| "py_index _ = Inl AttributeError"

text \<open>A function that may raise, applied to each element in turn: the first exception
  ends the traversal.\<close>

fun traverse :: "('a \<Rightarrow> pyerror + 'b) \<Rightarrow> 'a list \<Rightarrow> pyerror + 'b list" where
  "traverse f [] = Inr []"
| "traverse f (x # xs) =
     (case f x of Inl e \<Rightarrow> Inl e
      | Inr y \<Rightarrow> (case traverse f xs of Inl e \<Rightarrow> Inl e | Inr ys \<Rightarrow> Inr (y # ys)))"

text \<open>The finite number an object denotes; \<^verbatim>\<open>True\<close> and \<^verbatim>\<open>False\<close> count as 1 and 0.\<close>

fun num_val :: "json \<Rightarrow> rat option" where
  "num_val (JInt i) = Some (of_int i)"
| "num_val (JFloat r) = Some r"
| "num_val (JBool b) = Some (if b then 1 else 0)"
| "num_val JNegZero = Some 0"
| "num_val _ = None"

subsection \<open>Comparison\<close>

text \<open>The objects of type \<^verbatim>\<open>int\<close>, \<^verbatim>\<open>float\<close> and \<^verbatim>\<open>bool\<close>.\<close>

fun is_number :: "json \<Rightarrow> bool" where
  "is_number (JBool b) = True"
| "is_number (JInt i) = True"
| "is_number (JFloat r) = True"
| "is_number JNaN = True"
| "is_number JInfinity = True"
| "is_number JNegInfinity = True"
| "is_number JNegZero = True"
| "is_number _ = False"

text \<open>
  The place of a number on the extended number line, pairs being ordered
  lexicographically: \<open>(- 1, 0)\<close> is minus infinity, \<open>(0, r)\<close> the finite number \<open>r\<close> and
  \<open>(1, 0)\<close> infinity. \<^verbatim>\<open>nan\<close> has no place.
\<close>

fun ext_val :: "json \<Rightarrow> (int \<times> rat) option" where
  "ext_val (JBool b) = Some (0, if b then 1 else 0)"
| "ext_val (JInt i) = Some (0, of_int i)"
| "ext_val (JFloat r) = Some (0, r)"
| "ext_val JNegZero = Some (0, 0)"
| "ext_val JInfinity = Some (1, 0)"
| "ext_val JNegInfinity = Some (- 1, 0)"
| "ext_val _ = None"

text \<open>
  \<^verbatim>\<open>a is b or a == b\<close>, the equality by which containers compare their elements:
  numbers by value, \<^verbatim>\<open>nan\<close> equal to nothing but itself as an object, strings and lists
  by their elements, dicts by their items in any order.
\<close>

fun py_eq :: "json \<Rightarrow> json \<Rightarrow> bool"
  and py_eq_list :: "json list \<Rightarrow> json list \<Rightarrow> bool"
  and py_eq_items :: "(string \<times> json) list \<Rightarrow> (string \<times> json) list \<Rightarrow> bool" where
  "py_eq JNull b = (b = JNull)"
| "py_eq JNaN b = (b = JNaN)"
| "py_eq (JStr s) b = (case b of JStr t \<Rightarrow> s = t | _ \<Rightarrow> False)"
| "py_eq (JArr xs) b = (case b of JArr ys \<Rightarrow> py_eq_list xs ys | _ \<Rightarrow> False)"
| "py_eq (JObj kvs) b =
     (case b of JObj kws \<Rightarrow> length kvs = length kws \<and> py_eq_items kvs kws | _ \<Rightarrow> False)"
| "py_eq a b =
     (case (ext_val a, ext_val b) of (Some x, Some y) \<Rightarrow> x = y | _ \<Rightarrow> False)"
| "py_eq_list [] ys = (ys = [])"
| "py_eq_list (x # xs) ys =
     (case ys of [] \<Rightarrow> False | y # ys' \<Rightarrow> py_eq x y \<and> py_eq_list xs ys')"
| "py_eq_items [] kws = True"
| "py_eq_items (kv # kvs) kws =
     ((case map_of kws (fst kv) of None \<Rightarrow> False | Some w \<Rightarrow> py_eq (snd kv) w)
      \<and> py_eq_items kvs kws)"

text \<open>\<^verbatim>\<open>a < b\<close> on numbers: false whenever one of them is \<^verbatim>\<open>nan\<close>; a \<^verbatim>\<open>TypeError\<close> when one
  of them is no number.\<close>

definition num_lt :: "json \<Rightarrow> json \<Rightarrow> pyerror + bool" where
  "num_lt a b =
     (if is_number a \<and> is_number b then
        Inr (case (ext_val a, ext_val b) of (Some x, Some y) \<Rightarrow> x < y | _ \<Rightarrow> False)
      else Inl TypeError)"

text \<open>
  \<^verbatim>\<open>a < b\<close>: numbers by value, strings by their code points, lists by the first
  elements that differ (or by length when there are none); every other pair of
  types, \<^verbatim>\<open>None\<close> and dicts included, raises a \<^verbatim>\<open>TypeError\<close>.
\<close>

fun py_lt :: "json \<Rightarrow> json \<Rightarrow> pyerror + bool"
  and list_lt :: "json list \<Rightarrow> json list \<Rightarrow> pyerror + bool" where
  "py_lt (JStr s) b = (case b of JStr t \<Rightarrow> Inr (s < t) | _ \<Rightarrow> Inl TypeError)"
| "py_lt (JArr xs) b = (case b of JArr ys \<Rightarrow> list_lt xs ys | _ \<Rightarrow> Inl TypeError)"
| "py_lt a b = num_lt a b"
| "list_lt [] ys = Inr (ys \<noteq> [])"
| "list_lt (x # xs) ys =
     (case ys of [] \<Rightarrow> Inr False
      | y # ys' \<Rightarrow> if py_eq x y then list_lt xs ys' else py_lt x y)"

subsection \<open>\<^verbatim>\<open>list.sort\<close>\<close>

text \<open>
  CPython's \<^verbatim>\<open>list.sort\<close> (\<^verbatim>\<open>Objects/listobject.c\<close>, up to version 3.11) on a list
  of fewer than 64 elements: \<^verbatim>\<open>count_run\<close> finds the run the list starts with, a
  strictly descending run is reversed, and \<^verbatim>\<open>binarysort\<close> inserts the remaining
  elements one by one, each found its place by bisection. The only comparison is
  \<^verbatim>\<open><\<close>, on the keys; an exception it raises ends the sort.
\<close>

fun count_descending :: "json \<Rightarrow> json list \<Rightarrow> pyerror + nat" where
  "count_descending prev [] = Inr 0"
| "count_descending prev (k # ks) =
     (case py_lt k prev of Inl e \<Rightarrow> Inl e
      | Inr b \<Rightarrow>
          if b then (case count_descending k ks of Inl e \<Rightarrow> Inl e | Inr n \<Rightarrow> Inr (Suc n))
          else Inr 0)"

fun count_ascending :: "json \<Rightarrow> json list \<Rightarrow> pyerror + nat" where
  "count_ascending prev [] = Inr 0"
| "count_ascending prev (k # ks) =
     (case py_lt k prev of Inl e \<Rightarrow> Inl e
      | Inr b \<Rightarrow>
          if b then Inr 0
          else (case count_ascending k ks of Inl e \<Rightarrow> Inl e | Inr n \<Rightarrow> Inr (Suc n)))"

text \<open>The length of the first run of the keys, and whether it is descending.\<close>

fun count_run :: "json list \<Rightarrow> pyerror + nat \<times> bool" where
  "count_run (k0 # k1 # ks) =
     (case py_lt k1 k0 of Inl e \<Rightarrow> Inl e
      | Inr b \<Rightarrow>
          if b then
            (case count_descending k1 ks of Inl e \<Rightarrow> Inl e | Inr n \<Rightarrow> Inr (Suc (Suc n), True))
          else
            (case count_ascending k1 ks of Inl e \<Rightarrow> Inl e | Inr n \<Rightarrow> Inr (Suc (Suc n), False)))"
| "count_run ks = Inr (length ks, False)"

text \<open>The bisection of \<^verbatim>\<open>binarysort\<close>: the place of \<open>pivot\<close> among the keys \<open>ks\<close> between
  the indices \<open>l\<close> and \<open>r\<close>.\<close>

function bisect :: "json \<Rightarrow> json list \<Rightarrow> nat \<Rightarrow> nat \<Rightarrow> pyerror + nat" where
  "bisect pivot ks l r =
     (if l < r then
        (case py_lt pivot (ks ! (l + (r - l) div 2)) of Inl e \<Rightarrow> Inl e
         | Inr b \<Rightarrow>
             if b then bisect pivot ks l (l + (r - l) div 2)
             else bisect pivot ks (l + (r - l) div 2 + 1) r)
      else Inr l)"
  by pat_completeness auto
termination
  by (relation "measure (\<lambda>(pivot, ks, l, r). r - l)") auto

declare bisect.simps [simp del]

text \<open>\<^verbatim>\<open>binarysort\<close> on pairs of a key and its element: \<open>placed\<close> is the part already in
  place, the second list is what remains to be inserted.\<close>

fun binarysort :: "(json \<times> 'a) list \<Rightarrow> (json \<times> 'a) list \<Rightarrow> pyerror + (json \<times> 'a) list" where
  "binarysort placed [] = Inr placed"
| "binarysort placed (pivot # rest) =
     (case bisect (fst pivot) (map fst placed) 0 (length placed) of Inl e \<Rightarrow> Inl e
      | Inr l \<Rightarrow> binarysort (take l placed @ pivot # drop l placed) rest)"

definition listsort :: "(json \<times> 'a) list \<Rightarrow> pyerror + (json \<times> 'a) list" where
  "listsort xs =
     (if length xs < 2 then Inr xs
      else (case count_run (map fst xs) of Inl e \<Rightarrow> Inl e
            | Inr (n, descending) \<Rightarrow>
                binarysort (if descending then rev (take n xs) else take n xs) (drop n xs)))"

text \<open>Keys that \<^verbatim>\<open><\<close> orders linearly: numbers without \<^verbatim>\<open>nan\<close>, or strings.\<close>

fun is_str :: "json \<Rightarrow> bool" where
  "is_str (JStr s) = True"
| "is_str _ = False"

definition ordered_keys :: "json list \<Rightarrow> bool" where
  "ordered_keys keys =
     ((\<forall>k\<in>set keys. ext_val k \<noteq> None) \<or> (\<forall>k\<in>set keys. is_str k))"

text \<open>The kinds of keys that \<^verbatim>\<open><\<close> compares with their like: numbers 1, strings 2,
  lists 3; \<^verbatim>\<open>None\<close> and dicts, which it compares with nothing, 0.\<close>

fun key_kind :: "json \<Rightarrow> nat" where
  "key_kind JNull = 0"
| "key_kind (JObj kvs) = 0"
| "key_kind (JStr s) = 2"
| "key_kind (JArr xs) = 3"
| "key_kind _ = 1"

definition never_ordered :: "json list \<Rightarrow> bool" where
  "never_ordered keys =
     ((\<exists>k\<in>set keys. key_kind k = 0) \<or> (\<exists>a\<in>set keys. \<exists>b\<in>set keys. key_kind a \<noteq> key_kind b))"

text \<open>
  \<^verbatim>\<open>list.sort(key=..., reverse=...)\<close>. The keys are computed first. For
  \<^verbatim>\<open>reverse=True\<close> the list is reversed, sorted and reversed again. A list of 64 or
  more elements is sorted by merging runs, which is not embedded. On keys that \<^verbatim>\<open><\<close>
  orders linearly the result is the same, because there is only one stable sorted
  arrangement. When a key is \<^verbatim>\<open>None\<close> or a dict, or two keys are of different kinds,
  the sort raises a \<^verbatim>\<open>TypeError\<close>: every element is compared with another one, and
  the comparisons made connect all elements, so that one of them is between keys
  that \<^verbatim>\<open><\<close> does not compare. The remaining lists of that length, whose keys are
  numbers with a \<^verbatim>\<open>nan\<close> among them or lists, are outside the embedding.
\<close>

definition list_sort ::
  "(json \<Rightarrow> pyerror + json) \<Rightarrow> bool \<Rightarrow> json list \<Rightarrow> pyerror + json list" where
  "list_sort key reverse xs =
     (case traverse key xs of Inl e \<Rightarrow> Inl e
      | Inr keys \<Rightarrow>
          if length xs < 64 \<or> ordered_keys keys then
            (case listsort (if reverse then rev (zip keys xs) else zip keys xs) of
               Inl e \<Rightarrow> Inl e
             | Inr ranked \<Rightarrow> Inr (map snd (if reverse then rev ranked else ranked)))
          else if never_ordered keys then Inl TypeError
          else Inl Unmodelled)"

subsection \<open>\<^verbatim>\<open>json.dumps\<close> with its default arguments\<close>

fun digits :: "nat \<Rightarrow> string" where
  "digits n =
     (if n < 10 then [char_of (48 + n)] else digits (n div 10) @ [char_of (48 + n mod 10)])"

declare digits.simps [simp del]

definition show_int :: "int \<Rightarrow> string" where
  "show_int i = (if i < 0 then ''-'' @ digits (nat (- i)) else digits (nat i))"

definition hex_digit :: "nat \<Rightarrow> char" where
  "hex_digit n = (if n < 10 then char_of (48 + n) else char_of (87 + n))"

text \<open>The escapes of \<^verbatim>\<open>ensure_ascii=True\<close>: the quote, the backslash, the named control
  characters, and \<^verbatim>\<open>\u00XX\<close> for every other character outside the printable ASCII.\<close>

definition escape_char :: "char \<Rightarrow> string" where
  "escape_char c =
     (if c = CHR 0x22 then [CHR 0x5C, CHR 0x22]
      else if c = CHR 0x5C then [CHR 0x5C, CHR 0x5C]
      else if c = CHR 0x0A then [CHR 0x5C, CHR ''n'']
      else if c = CHR 0x0D then [CHR 0x5C, CHR ''r'']
      else if c = CHR 0x09 then [CHR 0x5C, CHR ''t'']
      else if c = CHR 0x08 then [CHR 0x5C, CHR ''b'']
      else if c = CHR 0x0C then [CHR 0x5C, CHR ''f'']
      else if 32 \<le> (of_char c :: nat) \<and> (of_char c :: nat) \<le> 126 then [c]
      else [CHR 0x5C, CHR ''u'', CHR ''0'', CHR ''0'',
            hex_digit ((of_char c :: nat) div 16), hex_digit ((of_char c :: nat) mod 16)])"

definition encode_string :: "string \<Rightarrow> string" where
  "encode_string s = [CHR 0x22] @ concat (map escape_char s) @ [CHR 0x22]"

fun join :: "string \<Rightarrow> string list \<Rightarrow> string" where
  "join sep [] = []"
| "join sep [x] = x"
| "join sep (x # y # ys) = x @ sep @ join sep (y # ys)"

text \<open>The separators are the default ones, \<^verbatim>\<open>', '\<close> and \<^verbatim>\<open>': '\<close>.\<close>

fun json_dumps :: "(rat \<Rightarrow> string) \<Rightarrow> json \<Rightarrow> string" where
  "json_dumps fr JNull = ''null''"
| "json_dumps fr (JBool b) = (if b then ''true'' else ''false'')"
| "json_dumps fr (JInt i) = show_int i"
| "json_dumps fr (JFloat r) = fr r"
| "json_dumps fr JNaN = ''NaN''"
| "json_dumps fr JInfinity = ''Infinity''"
| "json_dumps fr JNegInfinity = ''-Infinity''"
| "json_dumps fr JNegZero = ''-0.0''"
| "json_dumps fr (JStr s) = encode_string s"
| "json_dumps fr (JArr xs) = ''['' @ join '', '' (map (json_dumps fr) xs) @ '']''"
| "json_dumps fr (JObj kvs) =
     ''{'' @ join '', '' (map (\<lambda>(k, v). encode_string k @ '': '' @ json_dumps fr v) kvs) @ ''}''"

section \<open>The module\<close>

text \<open>\<^verbatim>\<open>order_item_predictions(e)\<close>: \<^verbatim>\<open>e['prediction']\<close>.\<close>

definition order_item_predictions :: "json \<Rightarrow> pyerror + json" where
  "order_item_predictions e = py_getitem e ''prediction''"

text \<open>\<^verbatim>\<open>context.request_content_type or "unknown"\<close>: \<^verbatim>\<open>None\<close> and the empty string are
  false.\<close>

definition content_type_or_unknown :: "string option \<Rightarrow> string" where
  "content_type_or_unknown t =
     (case t of None \<Rightarrow> ''unknown'' | Some s \<Rightarrow> if s = [] then ''unknown'' else s)"

text \<open>\<^verbatim>\<open>_process_input(data, context)\<close>; \<open>data\<close> is what \<^verbatim>\<open>data.read()\<close> returns.\<close>

definition process_input :: "library \<Rightarrow> string \<Rightarrow> request_context \<Rightarrow> pyerror + string" where
  \<open>process_input lib data context =
     (if request_content_type context = Some ''application/json'' then
        (case bytes_decode lib data of Inl e \<Rightarrow> Inl e
         | Inr d \<Rightarrow> Inr (if length d \<noteq> 0 then d else []))
      else Inl (ValueError (''{"error": "unsupported content type ''
                  @ content_type_or_unknown (request_content_type context) @ ''"}'')))\<close>

text \<open>\<^verbatim>\<open>_process_output(data, context)\<close>.\<close>

definition process_output ::
  "library \<Rightarrow> response \<Rightarrow> request_context \<Rightarrow> pyerror + string \<times> string option" where
  "process_output lib data context =
     (if status_code data \<noteq> 200 then
        (case bytes_decode lib (content data) of Inl e \<Rightarrow> Inl e | Inr t \<Rightarrow> Inl (ValueError t))
      else Inr (content data, accept_header context))"

text \<open>The body of the loop, lines 20 and 21: the item id of one instance.\<close>

definition instance_item_id :: "json \<Rightarrow> pyerror + nat" where
  "instance_item_id instance =
     (case py_getitem instance ''input_2'' of Inl e \<Rightarrow> Inl e
      | Inr one_hot_encoded_item_id \<Rightarrow> py_index one_hot_encoded_item_id)"

text \<open>The loop of lines 19 to 22, \<open>item_ids\<close> being the list built so far.\<close>

fun item_ids_loop :: "json list \<Rightarrow> nat list \<Rightarrow> pyerror + nat list" where
  "item_ids_loop [] item_ids = Inr item_ids"
| "item_ids_loop (instance # rest) item_ids =
     (case instance_item_id instance of Inl e \<Rightarrow> Inl e
      | Inr item_id \<Rightarrow> item_ids_loop rest (item_ids @ [item_id]))"

text \<open>Lines 15 to 22 of \<^verbatim>\<open>handler\<close>: the values of \<^verbatim>\<open>processed_input\<close> and
  \<^verbatim>\<open>item_ids\<close> when the loop is left.\<close>

definition handler_item_ids ::
  "library \<Rightarrow> string \<Rightarrow> request_context \<Rightarrow> pyerror + string \<times> nat list" where
  "handler_item_ids lib data context =
     (case process_input lib data context of Inl e \<Rightarrow> Inl e
      | Inr processed_input \<Rightarrow>
     (case json_loads lib processed_input of Inl e \<Rightarrow> Inl e
      | Inr processed_input_json \<Rightarrow>
     (case py_getitem processed_input_json ''instances'' of Inl e \<Rightarrow> Inl e
      | Inr instances \<Rightarrow>
     (case py_iter instances of Inl e \<Rightarrow> Inl e
      | Inr instance_list \<Rightarrow>
     (case item_ids_loop instance_list [] of Inl e \<Rightarrow> Inl e
      | Inr item_ids \<Rightarrow> Inr (processed_input, item_ids))))))"

text \<open>One element of the comprehension of line 31, from a pair of \<^verbatim>\<open>zip\<close>.\<close>

definition item_prediction_score :: "nat \<times> json \<Rightarrow> pyerror + json" where
  "item_prediction_score ip =
     (case py_getitem0 (snd ip) of Inl e \<Rightarrow> Inl e
      | Inr p0 \<Rightarrow> Inr (JObj [(''item_id'', JInt (int (fst ip))), (''prediction'', p0)]))"

text \<open>Lines 25 to 31: from the outcome of \<^verbatim>\<open>requests.post\<close> to the values of
  \<^verbatim>\<open>item_prediction_scores\<close>, still in the order of the batch, and of
  \<^verbatim>\<open>response_content_type\<close>.\<close>

definition handler_item_prediction_scores ::
  "library \<Rightarrow> request_context \<Rightarrow> nat list \<Rightarrow> pyerror + response \<Rightarrow>
     pyerror + json list \<times> string option" where
  "handler_item_prediction_scores lib context item_ids posted =
     (case posted of Inl e \<Rightarrow> Inl e
      | Inr response \<Rightarrow>
     (case process_output lib response context of Inl e \<Rightarrow> Inl e
      | Inr (prediction, response_content_type) \<Rightarrow>
     (case bytes_decode lib prediction of Inl e \<Rightarrow> Inl e
      | Inr pred_str \<Rightarrow>
     (case json_loads lib pred_str of Inl e \<Rightarrow> Inl e
      | Inr pred_json \<Rightarrow>
     (case py_getitem pred_json ''predictions'' of Inl e \<Rightarrow> Inl e
      | Inr prediction_scores \<Rightarrow>
     (case py_iter prediction_scores of Inl e \<Rightarrow> Inl e
      | Inr score_list \<Rightarrow>
     (case traverse item_prediction_score (zip item_ids score_list) of Inl e \<Rightarrow> Inl e
      | Inr item_prediction_scores \<Rightarrow>
          Inr (item_prediction_scores, response_content_type))))))))"

text \<open>
  \<^verbatim>\<open>handler(data, context)\<close>. The result is what the call returns or raises, together
  with the POST requests it has made, each as the URI and the body sent. An exception
  of lines 15 to 22 leaves before the one call of \<^verbatim>\<open>requests.post\<close>, on line 24.
\<close>

definition handler ::
  "library \<Rightarrow> string \<Rightarrow> request_context \<Rightarrow>
     (pyerror + string \<times> string option) \<times> (string \<times> string) list" where
  "handler lib data context =
     (case handler_item_ids lib data context of Inl e \<Rightarrow> (Inl e, [])
      | Inr (processed_input, item_ids) \<Rightarrow>
     ((case handler_item_prediction_scores lib context item_ids
              (requests_post lib (rest_uri context) processed_input) of Inl e \<Rightarrow> Inl e
       | Inr (item_prediction_scores, response_content_type) \<Rightarrow>
      (case list_sort order_item_predictions True item_prediction_scores of Inl e \<Rightarrow> Inl e
       | Inr sorted_scores \<Rightarrow>
          Inr (json_dumps (float_repr lib) (JObj [(''predictions'', JArr sorted_scores)]),
               response_content_type))),
      [(rest_uri context, processed_input)]))"

section \<open>Reading the result\<close>

text \<open>The entry of the ranking for the item \<open>i\<close> with the score \<open>s\<close>: the object the
  handler builds from the pair.\<close>

definition ranked_prediction :: "nat \<times> json \<Rightarrow> json" where
  "ranked_prediction p = JObj [(''item_id'', JInt (int (fst p))), (''prediction'', snd p)]"

text \<open>Python's \<^verbatim>\<open>a >= b\<close> on numbers: false as soon as one of them is NaN.\<close>

definition num_ge :: "json \<Rightarrow> json \<Rightarrow> pyerror + bool" where
  "num_ge a b =
     (if is_number a \<and> is_number b
      then Inr (case (ext_val a, ext_val b) of (Some x, Some y) \<Rightarrow> y \<le> x | _ \<Rightarrow> False)
      else Inl TypeError)"

subsection \<open>JSON texts\<close>

text \<open>
  A recogniser of the JSON grammar (RFC 8259): a value between optional white space,
  where a value is a string, a number, an object, an array, or one of \<^verbatim>\<open>true\<close>,
  \<^verbatim>\<open>false\<close> and \<^verbatim>\<open>null\<close>. Each function returns the rest of the text
  after what it has read, \<open>None\<close> when the text does not start with what it reads. The
  first argument of the three parsers bounds the number of calls, and twice the length
  of the text is more than a text can use.
\<close>

definition is_ws :: "char \<Rightarrow> bool" where
  "is_ws c = (c = CHR 0x20 \<or> c = CHR 0x09 \<or> c = CHR 0x0A \<or> c = CHR 0x0D)"

definition is_digit :: "char \<Rightarrow> bool" where
  "is_digit c = (48 \<le> (of_char c :: nat) \<and> (of_char c :: nat) \<le> 57)"

definition is_hex :: "char \<Rightarrow> bool" where
  "is_hex c =
     (is_digit c \<or> (65 \<le> (of_char c :: nat) \<and> (of_char c :: nat) \<le> 70)
      \<or> (97 \<le> (of_char c :: nat) \<and> (of_char c :: nat) \<le> 102))"

fun skip_ws :: "string \<Rightarrow> string" where
  "skip_ws [] = []"
| "skip_ws (c # cs) = (if is_ws c then skip_ws cs else c # cs)"

text \<open>The rest of the text after the closing quote of a string whose opening quote has
  been read: a quote ends the string, a backslash starts one of the escapes of the
  grammar, and a control character is refused.\<close>

fun scan_string :: "string \<Rightarrow> string option" where
  "scan_string [] = None"
| "scan_string (c # cs) =
     (if c = CHR 0x22 then Some cs
      else if c = CHR 0x5C then
        (case cs of
           [] \<Rightarrow> None
         | e # es \<Rightarrow>
             if e \<in> set [CHR 0x22, CHR 0x5C, CHR ''/'', CHR ''b'', CHR ''f'', CHR ''n'',
                          CHR ''r'', CHR ''t'']
             then scan_string es
             else if e = CHR ''u'' \<and> 4 \<le> length es \<and> list_all is_hex (take 4 es)
             then scan_string (drop 4 es)
             else None)
      else if (of_char c :: nat) < 32 then None
      else scan_string cs)"

definition scan_digits :: "string \<Rightarrow> string option" where
  "scan_digits s =
     (case s of [] \<Rightarrow> None
      | c # cs \<Rightarrow> if is_digit c then Some (dropWhile is_digit cs) else None)"

definition scan_exponent :: "string \<Rightarrow> string" where
  "scan_exponent s =
     (case s of [] \<Rightarrow> s
      | e # x \<Rightarrow>
          if e = CHR ''e'' \<or> e = CHR ''E'' then
            (case scan_digits (case x of [] \<Rightarrow> x
                               | g # y \<Rightarrow> if g = CHR ''+'' \<or> g = CHR ''-'' then y else x) of
               None \<Rightarrow> s | Some r \<Rightarrow> r)
          else s)"

definition scan_fraction :: "string \<Rightarrow> string" where
  "scan_fraction s =
     scan_exponent
       (case s of [] \<Rightarrow> s
        | d # f \<Rightarrow>
            if d = CHR ''.'' then (case scan_digits f of None \<Rightarrow> s | Some r \<Rightarrow> r) else s)"

definition scan_number :: "string \<Rightarrow> string option" where
  "scan_number s =
     (case (case s of [] \<Rightarrow> s | m # t \<Rightarrow> if m = CHR ''-'' then t else s) of
        [] \<Rightarrow> None
      | d # ds \<Rightarrow>
          if d = CHR ''0'' then Some (scan_fraction ds)
          else if is_digit d then Some (scan_fraction (dropWhile is_digit ds))
          else None)"

definition strip_prefix :: "string \<Rightarrow> string \<Rightarrow> string option" where
  "strip_prefix p s = (if take (length p) s = p then Some (drop (length p) s) else None)"

fun parse_value :: "nat \<Rightarrow> string \<Rightarrow> string option"
  and parse_elements :: "nat \<Rightarrow> string \<Rightarrow> string option"
  and parse_members :: "nat \<Rightarrow> string \<Rightarrow> string option" where
  "parse_value 0 s = None"
| "parse_value (Suc n) s =
     (case s of
        [] \<Rightarrow> None
      | c # cs \<Rightarrow>
          if c = CHR 0x22 then scan_string cs
          else if c = CHR ''{'' then
            (case skip_ws cs of
               [] \<Rightarrow> None
             | d # r \<Rightarrow> if d = CHR ''}'' then Some r else parse_members n (d # r))
          else if c = CHR ''['' then
            (case skip_ws cs of
               [] \<Rightarrow> None
             | d # r \<Rightarrow> if d = CHR '']'' then Some r else parse_elements n (d # r))
          else if c = CHR ''t'' then strip_prefix ''true'' s
          else if c = CHR ''f'' then strip_prefix ''false'' s
          else if c = CHR ''n'' then strip_prefix ''null'' s
          else scan_number s)"
| "parse_elements 0 s = None"
| "parse_elements (Suc n) s =
     (case parse_value n s of
        None \<Rightarrow> None
      | Some r \<Rightarrow>
          (case skip_ws r of
             [] \<Rightarrow> None
           | d # r' \<Rightarrow>
               if d = CHR '','' then parse_elements n (skip_ws r')
               else if d = CHR '']'' then Some r'
               else None))"
| "parse_members 0 s = None"
| "parse_members (Suc n) s =
     (case s of
        [] \<Rightarrow> None
      | q # k \<Rightarrow>
          if q = CHR 0x22 then
            (case scan_string k of
               None \<Rightarrow> None
             | Some r \<Rightarrow>
                 (case skip_ws r of
                    [] \<Rightarrow> None
                  | d # v \<Rightarrow>
                      if d = CHR '':'' then
                        (case parse_value n (skip_ws v) of
                           None \<Rightarrow> None
                         | Some r' \<Rightarrow>
                             (case skip_ws r' of
                                [] \<Rightarrow> None
                              | g # r'' \<Rightarrow>
                                  if g = CHR '','' then parse_members n (skip_ws r'')
                                  else if g = CHR ''}'' then Some r''
                                  else None))
                      else None))
          else None)"


section \<open>Concrete runs\<close>

text \<open>
  A library given by finitely many of its values: what \<^verbatim>\<open>json.loads\<close> returns for the
  texts of a table, what \<^verbatim>\<open>repr\<close> prints for the floats of a table, and the one outcome
  of \<^verbatim>\<open>requests.post\<close>. The texts used below are ASCII, which \<^verbatim>\<open>decode('utf-8')\<close>
  leaves as they are.
\<close>

definition table_library ::
  "(string \<times> json) list \<Rightarrow> (rat \<times> string) list \<Rightarrow> pyerror + response \<Rightarrow> library" where
  "table_library parses reprs posted =
     \<lparr>bytes_decode = Inr,
      json_loads = (\<lambda>s. case map_of parses s of None \<Rightarrow> Inl JSONDecodeError | Some v \<Rightarrow> Inr v),
      float_repr = (\<lambda>r. case map_of reprs r of None \<Rightarrow> [] | Some s \<Rightarrow> s),
      requests_post = (\<lambda>uri body. posted)\<rparr>"

definition json_context :: request_context where
  "json_context =
     \<lparr>request_content_type = Some ''application/json'',
      accept_header = Some ''application/json'',
      rest_uri = ''http://localhost:8501/v1/models/ncf:predict''\<rparr>"

text \<open>The scenario of the specification. The doubles nearest to 0.2 and 0.9 are
  \<open>3602879701896397 / 2^54\<close> and \<open>8106479329266893 / 2^53\<close>.\<close>

definition scenario_request :: string where
  \<open>scenario_request = ''{"instances": [{"input_2":[0,1,0]}, {"input_2":[1,0,0]}]}''\<close>

definition scenario_request_json :: json where
  "scenario_request_json =
     JObj [(''instances'', JArr [JObj [(''input_2'', JArr [JInt 0, JInt 1, JInt 0])],
                                 JObj [(''input_2'', JArr [JInt 1, JInt 0, JInt 0])]])]"

definition scenario_reply :: string where
  \<open>scenario_reply = ''{"predictions": [[0.2],[0.9]]}''\<close>

definition double_0_2 :: rat where
  "double_0_2 = 3602879701896397 / 18014398509481984"

definition double_0_9 :: rat where
  "double_0_9 = 8106479329266893 / 9007199254740992"

definition scenario_reply_json :: json where
  "scenario_reply_json =
     JObj [(''predictions'', JArr [JArr [JFloat double_0_2], JArr [JFloat double_0_9]])]"

definition scenario_library :: library where
  "scenario_library =
     table_library
       [(scenario_request, scenario_request_json), (scenario_reply, scenario_reply_json)]
       [(double_0_2, ''0.2''), (double_0_9, ''0.9'')]
       (Inr \<lparr>status_code = 200, content = scenario_reply\<rparr>)"

text \<open>The model server answers 500 with the body \<^verbatim>\<open>server overloaded\<close>; an empty batch.\<close>

definition overloaded_library :: library where
  "overloaded_library =
     table_library [(scenario_request, scenario_request_json)] []
       (Inr \<lparr>status_code = 500, content = ''server overloaded''\<rparr>)"

definition empty_request :: string where
  \<open>empty_request = ''{"instances": []}''\<close>

definition empty_library :: library where
  "empty_library =
     table_library
       [(empty_request, JObj [(''instances'', JArr [])]), (scenario_reply, scenario_reply_json)]
       [(double_0_2, ''0.2''), (double_0_9, ''0.9'')]
       (Inr \<lparr>status_code = 200, content = scenario_reply\<rparr>)"

text \<open>A batch of three instances of which the first and the third get the same score.\<close>

definition tie_request :: string where
  \<open>tie_request = ''{"instances": [{"input_2": [0, 1]}, {"input_2": [1, 0]}, {"input_2": [0, 0, 1]}]}''\<close>

definition tie_request_json :: json where
  "tie_request_json =
     JObj [(''instances'', JArr [JObj [(''input_2'', JArr [JInt 0, JInt 1])],
                                 JObj [(''input_2'', JArr [JInt 1, JInt 0])],
                                 JObj [(''input_2'', JArr [JInt 0, JInt 0, JInt 1])]])]"

definition tie_reply :: string where
  \<open>tie_reply = ''{"predictions": [[1], [2], [1]]}''\<close>

definition tie_reply_json :: json where
  "tie_reply_json =
     JObj [(''predictions'', JArr [JArr [JInt 1], JArr [JInt 2], JArr [JInt 1]])]"

definition tie_library :: library where
  "tie_library =
     table_library [(tie_request, tie_request_json), (tie_reply, tie_reply_json)] []
       (Inr \<lparr>status_code = 200, content = tie_reply\<rparr>)"

text \<open>A batch whose first instance has two entries equal to 1 and whose second instance
  has none.\<close>

definition no_one_request :: string where
  \<open>no_one_request = ''{"instances": [{"input_2": [0, 1, 1]}, {"input_2": [0, 0]}]}''\<close>

definition no_one_instances :: "json list" where
  "no_one_instances =
     [JObj [(''input_2'', JArr [JInt 0, JInt 1, JInt 1])], JObj [(''input_2'', JArr [JInt 0, JInt 0])]]"

definition no_one_library :: library where
  "no_one_library =
     table_library [(no_one_request, JObj [(''instances'', JArr no_one_instances)])] []
       (Inr \<lparr>status_code = 200, content = scenario_reply\<rparr>)"

text \<open>Replies to the batch of the scenario with one prediction too few and with one
  entry too many.\<close>

definition short_reply :: string where
  \<open>short_reply = ''{"predictions": [[0.9]]}''\<close>

definition short_library :: library where
  "short_library =
     table_library
       [(scenario_request, scenario_request_json),
        (short_reply, JObj [(''predictions'', JArr [JArr [JFloat double_0_9]])])]
       [(double_0_9, ''0.9'')]
       (Inr \<lparr>status_code = 200, content = short_reply\<rparr>)"

definition long_reply :: string where
  \<open>long_reply = ''{"predictions": [[0.2],[0.9],null]}''\<close>

definition long_library :: library where
  "long_library =
     table_library
       [(scenario_request, scenario_request_json),
        (long_reply, JObj [(''predictions'',
                            JArr [JArr [JFloat double_0_2], JArr [JFloat double_0_9], JNull])])]
       [(double_0_2, ''0.2''), (double_0_9, ''0.9'')]
       (Inr \<lparr>status_code = 200, content = long_reply\<rparr>)"

text \<open>A batch of three instances whose second score is NaN: \<^verbatim>\<open>json.loads\<close> reads the
  token \<^verbatim>\<open>NaN\<close> as the float NaN.\<close>

definition nan_request :: string where
  \<open>nan_request = ''{"instances": [{"input_2": [1, 0, 0]}, {"input_2": [0, 1, 0]}, {"input_2": [0, 0, 1]}]}''\<close>

definition nan_request_json :: json where
  "nan_request_json =
     JObj [(''instances'', JArr [JObj [(''input_2'', JArr [JInt 1, JInt 0, JInt 0])],
                                 JObj [(''input_2'', JArr [JInt 0, JInt 1, JInt 0])],
                                 JObj [(''input_2'', JArr [JInt 0, JInt 0, JInt 1])]])]"

definition nan_reply :: string where
  \<open>nan_reply = ''{"predictions": [[0.5], [NaN], [0.9]]}''\<close>

definition nan_reply_json :: json where
  "nan_reply_json =
     JObj [(''predictions'', JArr [JArr [JFloat (1 / 2)], JArr [JNaN], JArr [JFloat double_0_9]])]"

definition nan_library :: library where
  "nan_library =
     table_library [(nan_request, nan_request_json), (nan_reply, nan_reply_json)]
       [(1 / 2, ''0.5''), (double_0_9, ''0.9'')]
       (Inr \<lparr>status_code = 200, content = nan_reply\<rparr>)"

text \<open>A batch of seven instances, for the items 0 to 6 in this order, of which the third
  gets the score NaN, the last the score 1.0 and the others the score 0.0.\<close>

definition seven_request :: string where
  \<open>seven_request = ''{"instances": [{"input_2": [1]}, {"input_2": [0, 1]}, {"input_2": [0, 0, 1]}, {"input_2": [0, 0, 0, 1]}, {"input_2": [0, 0, 0, 0, 1]}, {"input_2": [0, 0, 0, 0, 0, 1]}, {"input_2": [0, 0, 0, 0, 0, 0, 1]}]}''\<close>

definition seven_request_json :: json where
  "seven_request_json =
     JObj [(''instances'',
            JArr [JObj [(''input_2'', JArr [JInt 1])],
                  JObj [(''input_2'', JArr [JInt 0, JInt 1])],
                  JObj [(''input_2'', JArr [JInt 0, JInt 0, JInt 1])],
                  JObj [(''input_2'', JArr [JInt 0, JInt 0, JInt 0, JInt 1])],
                  JObj [(''input_2'', JArr [JInt 0, JInt 0, JInt 0, JInt 0, JInt 1])],
                  JObj [(''input_2'', JArr [JInt 0, JInt 0, JInt 0, JInt 0, JInt 0, JInt 1])],
                  JObj [(''input_2'',
                         JArr [JInt 0, JInt 0, JInt 0, JInt 0, JInt 0, JInt 0, JInt 1])]])]"

definition seven_reply :: string where
  \<open>seven_reply = ''{"predictions": [[0.0], [0.0], [NaN], [0.0], [0.0], [0.0], [1.0]]}''\<close>

definition seven_reply_json :: json where
  "seven_reply_json =
     JObj [(''predictions'',
            JArr [JArr [JFloat 0], JArr [JFloat 0], JArr [JNaN], JArr [JFloat 0],
                  JArr [JFloat 0], JArr [JFloat 0], JArr [JFloat 1]])]"

definition seven_library :: library where
  "seven_library =
     table_library [(seven_request, seven_request_json), (seven_reply, seven_reply_json)]
       [(0, ''0.0''), (1, ''1.0'')]
       (Inr \<lparr>status_code = 200, content = seven_reply\<rparr>)"



section \<open>Auxiliary facts\<close>

lemma list_index_Inr:
  "list_index xs = Inr i \<Longrightarrow>
     i < length xs \<and> py_eq_int (xs ! i) 1 \<and> (\<forall>j<i. \<not> py_eq_int (xs ! j) 1)"
proof (induction xs arbitrary: i)
  case Nil
  then show ?case by simp
next
  case (Cons x xs)
  show ?case
  proof (cases "py_eq_int x 1")
    case True
    with Cons.prems show ?thesis by simp
  next
    case False
    with Cons.prems obtain k where k: "list_index xs = Inr k" "i = Suc k"
      by (auto split: sum.splits)
    from Cons.IH [OF k(1)] False k(2) show ?thesis
      by (auto simp: less_Suc_eq_0_disj)
  qed
qed

lemma list_index_Inl:
  "list_index xs = Inl e \<Longrightarrow> e = ValueError ''1 is not in list'' \<and> (\<forall>x\<in>set xs. \<not> py_eq_int x 1)"
  by (induction xs) (auto split: sum.splits if_splits)

lemma list_index_found:
  "\<exists>x\<in>set xs. py_eq_int x 1 \<Longrightarrow> \<exists>i. list_index xs = Inr i"
  by (cases "list_index xs") (auto dest: list_index_Inl)

lemma list_index_absent:
  "\<forall>x\<in>set xs. \<not> py_eq_int x 1 \<Longrightarrow> list_index xs = Inl (ValueError ''1 is not in list'')"
  by (induction xs) auto

lemma traverse_Inr_iff:
  "traverse f xs = Inr ys \<longleftrightarrow> list_all2 (\<lambda>x y. f x = Inr y) xs ys"
proof (induction xs arbitrary: ys)
  case Nil
  show ?case by auto
next
  case (Cons x xs)
  show ?case
    by (cases ys) (auto simp: Cons.IH [symmetric] split: sum.splits)
qed

lemma traverse_total:
  "\<forall>x\<in>set xs. \<exists>y. f x = Inr y \<Longrightarrow> \<exists>ys. traverse f xs = Inr ys"
  by (induction xs) (auto split: sum.splits)

lemma traverse_Inl:
  "traverse f xs = Inl e \<Longrightarrow>
     \<exists>k<length xs. f (xs ! k) = Inl e \<and> (\<forall>j<k. \<exists>y. f (xs ! j) = Inr y)"
proof (induction xs)
  case Nil
  then show ?case by simp
next
  case (Cons x xs)
  show ?case
  proof (cases "f x")
    case (Inl e')
    with Cons.prems have "f ((x # xs) ! 0) = Inl e" by simp
    then show ?thesis by (intro exI [of _ 0]) simp
  next
    case (Inr y)
    with Cons.prems have "traverse f xs = Inl e" by (auto split: sum.splits)
    from Cons.IH [OF this] obtain k where
      k: "k < length xs" "f (xs ! k) = Inl e" "\<forall>j<k. \<exists>y. f (xs ! j) = Inr y" by blast
    show ?thesis
    proof (intro exI [of _ "Suc k"] conjI allI impI)
      fix j assume "j < Suc k"
      then show "\<exists>y. f ((x # xs) ! j) = Inr y"
        using k(3) Inr by (cases j) auto
    qed (use k in auto)
  qed
qed

lemma item_ids_loop_traverse:
  "item_ids_loop instances item_ids =
     (case traverse instance_item_id instances of Inl e \<Rightarrow> Inl e
      | Inr new \<Rightarrow> Inr (item_ids @ new))"
  by (induction instances arbitrary: item_ids) (auto split: sum.splits)

lemma item_ids_loop_length:
  "item_ids_loop instances item_ids = Inr ids \<Longrightarrow>
     length ids = length item_ids + length instances"
  by (auto simp: item_ids_loop_traverse traverse_Inr_iff split: sum.splits
      dest: list_all2_lengthD)

lemma process_input_json:
  "request_content_type context = Some ''application/json'' \<Longrightarrow>
     process_input lib data context = bytes_decode lib data"
  by (cases "bytes_decode lib data") (auto simp: process_input_def)

subsection \<open>The sort rearranges\<close>

lemma binarysort_mset:
  "binarysort placed rest = Inr ys \<Longrightarrow> mset ys = mset placed + mset rest"
proof (induction rest arbitrary: placed)
  case Nil
  then show ?case by simp
next
  case (Cons pivot rest)
  from Cons.prems obtain l where
    "binarysort (take l placed @ pivot # drop l placed) rest = Inr ys"
    by (auto split: sum.splits)
  from Cons.IH [OF this] have "mset ys = mset (take l placed @ pivot # drop l placed) + mset rest" .
  also have "mset (take l placed @ pivot # drop l placed) = add_mset pivot (mset placed)"
    by (metis append_take_drop_id mset.simps(2) mset_append union_mset_add_mset_right)
  finally show ?case by simp
qed

lemma listsort_mset:
  assumes "listsort xs = Inr ys"
  shows "mset ys = mset xs"
proof (cases "length xs < 2")
  case True
  with assms show ?thesis by (simp add: listsort_def)
next
  case False
  with assms obtain n d where
    "binarysort (if d then rev (take n xs) else take n xs) (drop n xs) = Inr ys"
    by (auto simp: listsort_def split: sum.splits)
  from binarysort_mset [OF this]
  have "mset ys = mset (take n xs) + mset (drop n xs)" by (simp split: if_splits)
  then show ?thesis by (metis append_take_drop_id mset_append)
qed

lemma list_sort_mset:
  assumes "list_sort key reverse xs = Inr ys"
  shows "mset ys = mset xs"
proof -
  from assms obtain keys where keys: "traverse key xs = Inr keys"
    by (auto simp: list_sort_def split: sum.splits)
  then have "list_all2 (\<lambda>x k. key x = Inr k) xs keys" by (simp add: traverse_Inr_iff)
  then have len: "length keys = length xs" by (simp add: list_all2_lengthD)
  from assms keys obtain ranked where
    ranked: "listsort (if reverse then rev (zip keys xs) else zip keys xs) = Inr ranked"
    and ys: "ys = map snd (if reverse then rev ranked else ranked)"
    by (auto simp: list_sort_def split: sum.splits if_splits)
  from listsort_mset [OF ranked] have "mset ranked = mset (zip keys xs)"
    by (simp split: if_splits)
  then have "mset (map snd ranked) = mset (map snd (zip keys xs))" by (metis mset_map)
  with len ys show ?thesis by (simp split: if_splits)
qed


subsection \<open>The sort on keys that are ordered linearly\<close>

text \<open>In this subsection \<open>f\<close> maps the keys into a linear order that \<^verbatim>\<open><\<close> follows on
  the set \<open>K\<close>.\<close>

lemma count_descending_run:
  fixes f :: "json \<Rightarrow> 'k::linorder"
  assumes "\<And>a b. a \<in> K \<Longrightarrow> b \<in> K \<Longrightarrow> py_lt a b = Inr (f a < f b)"
    and "prev \<in> K" and "set ks \<subseteq> K"
  shows "\<exists>n. count_descending prev ks = Inr n \<and> n \<le> length ks
    \<and> sorted_wrt (\<lambda>a b. f b < f a) (prev # take n ks)"
  using assms(2,3)
proof (induction ks arbitrary: prev)
  case Nil
  then show ?case by simp
next
  case (Cons k ks)
  then have lt: "py_lt k prev = Inr (f k < f prev)" using assms(1) by simp
  show ?case
  proof (cases "f k < f prev")
    case True
    from Cons.IH [of k] Cons.prems obtain n where
      n: "count_descending k ks = Inr n" "n \<le> length ks"
        "sorted_wrt (\<lambda>a b. f b < f a) (k # take n ks)" by auto
    from n(3) True have "sorted_wrt (\<lambda>a b. f b < f a) (prev # k # take n ks)"
      by (auto intro: less_trans)
    with n(1,2) lt True show ?thesis by (intro exI [of _ "Suc n"]) simp
  next
    case False
    with lt show ?thesis by (intro exI [of _ 0]) simp
  qed
qed

lemma count_ascending_run:
  fixes f :: "json \<Rightarrow> 'k::linorder"
  assumes "\<And>a b. a \<in> K \<Longrightarrow> b \<in> K \<Longrightarrow> py_lt a b = Inr (f a < f b)"
    and "prev \<in> K" and "set ks \<subseteq> K"
  shows "\<exists>n. count_ascending prev ks = Inr n \<and> n \<le> length ks
    \<and> sorted_wrt (\<lambda>a b. f a \<le> f b) (prev # take n ks)"
  using assms(2,3)
proof (induction ks arbitrary: prev)
  case Nil
  then show ?case by simp
next
  case (Cons k ks)
  then have lt: "py_lt k prev = Inr (f k < f prev)" using assms(1) by simp
  show ?case
  proof (cases "f k < f prev")
    case True
    with lt show ?thesis by (intro exI [of _ 0]) simp
  next
    case False
    from Cons.IH [of k] Cons.prems obtain n where
      n: "count_ascending k ks = Inr n" "n \<le> length ks"
        "sorted_wrt (\<lambda>a b. f a \<le> f b) (k # take n ks)" by auto
    from n(3) False have "sorted_wrt (\<lambda>a b. f a \<le> f b) (prev # k # take n ks)"
      by (auto intro: order_trans)
    with n(1,2) lt False show ?thesis by (intro exI [of _ "Suc n"]) simp
  qed
qed

lemma count_run_run:
  fixes f :: "json \<Rightarrow> 'k::linorder"
  assumes "\<And>a b. a \<in> K \<Longrightarrow> b \<in> K \<Longrightarrow> py_lt a b = Inr (f a < f b)"
    and "set ks \<subseteq> K"
  shows "\<exists>n d. count_run ks = Inr (n, d) \<and> n \<le> length ks
    \<and> (if d then sorted_wrt (\<lambda>a b. f b < f a) (take n ks)
        else sorted_wrt (\<lambda>a b. f a \<le> f b) (take n ks))"
proof (cases ks)
  case Nil
  then show ?thesis by (intro exI [of _ 0] exI [of _ False]) simp
next
  case (Cons k0 ks')
  show ?thesis
  proof (cases ks')
    case Nil
    with Cons show ?thesis by (intro exI [of _ 1] exI [of _ False]) simp
  next
    case (Cons k1 ks'')
    with \<open>ks = k0 # ks'\<close> have ks: "ks = k0 # k1 # ks''" by simp
    with assms have in_K: "k0 \<in> K" "k1 \<in> K" "set ks'' \<subseteq> K" by auto
    then have lt: "py_lt k1 k0 = Inr (f k1 < f k0)" using assms(1) by simp
    show ?thesis
    proof (cases "f k1 < f k0")
      case True
      from count_descending_run [of K f k1 ks'', OF assms(1) in_K(2,3)] obtain n where
        n: "count_descending k1 ks'' = Inr n" "n \<le> length ks''"
          "sorted_wrt (\<lambda>a b. f b < f a) (k1 # take n ks'')" by auto
      from n(3) True have "sorted_wrt (\<lambda>a b. f b < f a) (k0 # k1 # take n ks'')"
        by (auto intro: less_trans)
      with n(1,2) lt True ks show ?thesis
        by (intro exI [of _ "Suc (Suc n)"] exI [of _ True]) simp
    next
      case False
      from count_ascending_run [of K f k1 ks'', OF assms(1) in_K(2,3)] obtain n where
        n: "count_ascending k1 ks'' = Inr n" "n \<le> length ks''"
          "sorted_wrt (\<lambda>a b. f a \<le> f b) (k1 # take n ks'')" by auto
      from n(3) False have "sorted_wrt (\<lambda>a b. f a \<le> f b) (k0 # k1 # take n ks'')"
        by (auto intro: order_trans)
      with n(1,2) lt False ks show ?thesis
        by (intro exI [of _ "Suc (Suc n)"] exI [of _ False]) simp
    qed
  qed
qed

lemma bisect_place:
  fixes f :: "json \<Rightarrow> 'k::linorder"
  assumes "\<And>a b. a \<in> K \<Longrightarrow> b \<in> K \<Longrightarrow> py_lt a b = Inr (f a < f b)"
    and "pivot \<in> K" and "set ks \<subseteq> K"
    and "sorted (map f ks)"
    and "l \<le> r" and "r \<le> length ks"
    and "\<forall>j<l. f (ks ! j) \<le> f pivot"
    and "\<forall>j. r \<le> j \<and> j < length ks \<longrightarrow> f pivot < f (ks ! j)"
  shows "\<exists>i. bisect pivot ks l r = Inr i \<and> i \<le> length ks
    \<and> (\<forall>j<i. f (ks ! j) \<le> f pivot)
    \<and> (\<forall>j. i \<le> j \<and> j < length ks \<longrightarrow> f pivot < f (ks ! j))"
  using assms(2-8)
proof (induction pivot ks l r rule: bisect.induct)
  case (1 pivot ks l r)
  note in_K = "1.prems"(1,2) and srt = "1.prems"(3)
  show ?case
  proof (cases "l < r")
    case False
    with "1.prems" show ?thesis
      by (subst bisect.simps) auto
  next
    case True
    define p where "p = l + (r - l) div 2"
    from True "1.prems" have p: "l \<le> p" "p < r" "p < length ks"
      by (auto simp: p_def)
    then have "ks ! p \<in> K" using in_K(2) nth_mem [of p ks] by blast
    with in_K(1) have lt: "py_lt pivot (ks ! p) = Inr (f pivot < f (ks ! p))"
      using assms(1) by simp
    show ?thesis
    proof (cases "f pivot < f (ks ! p)")
      case less: True
      have above: "\<forall>j. p \<le> j \<and> j < length ks \<longrightarrow> f pivot < f (ks ! j)"
      proof (intro allI impI)
        fix j assume j: "p \<le> j \<and> j < length ks"
        with srt have "f (ks ! p) \<le> f (ks ! j)"
          by (simp add: sorted_iff_nth_mono)
        with less show "f pivot < f (ks ! j)" by simp
      qed
      have lt': "py_lt pivot (ks ! (l + (r - l) div 2)) = Inr True"
        using lt less by (simp add: p_def)
      have "\<exists>i. bisect pivot ks l (l + (r - l) div 2) = Inr i \<and> i \<le> length ks
          \<and> (\<forall>j<i. f (ks ! j) \<le> f pivot)
          \<and> (\<forall>j. i \<le> j \<and> j < length ks \<longrightarrow> f pivot < f (ks ! j))"
        using in_K srt p "1.prems"(6) above
        by (intro "1.IH"(1) [OF True lt']) (simp_all add: p_def)
      then obtain i where "bisect pivot ks l p = Inr i \<and> i \<le> length ks
          \<and> (\<forall>j<i. f (ks ! j) \<le> f pivot)
          \<and> (\<forall>j. i \<le> j \<and> j < length ks \<longrightarrow> f pivot < f (ks ! j))"
        unfolding p_def by blast
      moreover have "bisect pivot ks l r = bisect pivot ks l p"
        using True lt less by (subst bisect.simps) (simp add: p_def)
      ultimately show ?thesis by auto
    next
      case geq: False
      have below: "\<forall>j<p + 1. f (ks ! j) \<le> f pivot"
      proof (intro allI impI)
        fix j assume "j < p + 1"
        then have "j \<le> p" by simp
        with srt p(3) have "f (ks ! j) \<le> f (ks ! p)"
          by (simp add: sorted_iff_nth_mono)
        with geq show "f (ks ! j) \<le> f pivot" by simp
      qed
      have lt': "py_lt pivot (ks ! (l + (r - l) div 2)) = Inr False"
        using lt geq by (simp add: p_def)
      have "\<exists>i. bisect pivot ks (l + (r - l) div 2 + 1) r = Inr i \<and> i \<le> length ks
          \<and> (\<forall>j<i. f (ks ! j) \<le> f pivot)
          \<and> (\<forall>j. i \<le> j \<and> j < length ks \<longrightarrow> f pivot < f (ks ! j))"
        using in_K srt p "1.prems"(5,7) below
        by (intro "1.IH"(2) [OF True lt']) (simp_all add: p_def)
      then obtain i where "bisect pivot ks (p + 1) r = Inr i \<and> i \<le> length ks
          \<and> (\<forall>j<i. f (ks ! j) \<le> f pivot)
          \<and> (\<forall>j. i \<le> j \<and> j < length ks \<longrightarrow> f pivot < f (ks ! j))"
        unfolding p_def by blast
      moreover have "bisect pivot ks l r = bisect pivot ks (p + 1) r"
        using True lt geq by (subst bisect.simps) (simp add: p_def)
      ultimately show ?thesis by auto
    qed
  qed
qed


lemma insert_at_place:
  fixes g :: "'a \<Rightarrow> 'k::linorder"
  assumes "sorted (map g placed)" and "i \<le> length placed"
    and "\<forall>j<i. g (placed ! j) \<le> g pivot"
    and "\<forall>j. i \<le> j \<and> j < length placed \<longrightarrow> g pivot < g (placed ! j)"
  shows "sorted (map g (take i placed @ pivot # drop i placed))"
    and "filter (\<lambda>p. g p = k) (take i placed @ pivot # drop i placed)
          = filter (\<lambda>p. g p = k) (placed @ [pivot])"
proof -
  have before: "g x \<le> g pivot" if "x \<in> set (take i placed)" for x
  proof -
    from that obtain j where "j < length (take i placed)" "x = take i placed ! j"
      by (auto simp: in_set_conv_nth)
    with assms(2,3) show ?thesis by simp
  qed
  have after: "g pivot < g y" if "y \<in> set (drop i placed)" for y
  proof -
    from that obtain j where j: "j < length (drop i placed)" "y = drop i placed ! j"
      by (auto simp: in_set_conv_nth)
    with assms(2) have "y = placed ! (i + j)" "i + j < length placed" by simp_all
    with assms(4) show ?thesis by simp
  qed
  from assms(1) have "sorted (take i (map g placed))" "sorted (drop i (map g placed))"
    by (simp_all add: sorted_wrt_take sorted_wrt_drop)
  then have parts: "sorted (map g (take i placed))" "sorted (map g (drop i placed))"
    by (simp_all add: take_map drop_map)
  have "sorted (map g (take i placed) @ g pivot # map g (drop i placed))"
    unfolding sorted_append
  proof (intro conjI ballI)
    show "sorted (map g (take i placed))" by (rule parts(1))
    show "sorted (g pivot # map g (drop i placed))"
      using parts(2) after by (auto simp: less_imp_le)
  next
    fix x y assume "x \<in> set (map g (take i placed))"
      "y \<in> set (g pivot # map g (drop i placed))"
    then obtain a where a: "a \<in> set (take i placed)" "x = g a"
      and y: "y = g pivot \<or> (\<exists>b\<in>set (drop i placed). y = g b)" by auto
    from before [OF a(1)] a(2) have "x \<le> g pivot" by simp
    moreover from y after have "g pivot \<le> y" by (auto simp: less_imp_le)
    ultimately show "x \<le> y" by (rule order_trans)
  qed
  then show "sorted (map g (take i placed @ pivot # drop i placed))" by simp
  have none: "filter (\<lambda>p. g p = k) (drop i placed) = []" if "k = g pivot"
  proof -
    have "g p \<noteq> k" if "p \<in> set (drop i placed)" for p
      using after [OF that] \<open>k = g pivot\<close> by simp
    then show ?thesis by (simp add: filter_empty_conv)
  qed
  have split: "filter (\<lambda>p. g p = k) placed
      = filter (\<lambda>p. g p = k) (take i placed) @ filter (\<lambda>p. g p = k) (drop i placed)"
    by (metis append_take_drop_id filter_append)
  show "filter (\<lambda>p. g p = k) (take i placed @ pivot # drop i placed)
          = filter (\<lambda>p. g p = k) (placed @ [pivot])"
  proof (cases "k = g pivot")
    case True
    with none split show ?thesis by simp
  next
    case False
    with split show ?thesis by auto
  qed
qed

lemma binarysort_ordered:
  fixes f :: "json \<Rightarrow> 'k::linorder"
  assumes "\<And>a b. a \<in> K \<Longrightarrow> b \<in> K \<Longrightarrow> py_lt a b = Inr (f a < f b)"
    and "fst ` set placed \<subseteq> K" and "fst ` set rest \<subseteq> K"
    and "sorted (map (\<lambda>p. f (fst p)) placed)"
  shows "\<exists>ys. binarysort placed rest = Inr ys
    \<and> sorted (map (\<lambda>p. f (fst p)) ys)
    \<and> (\<forall>k. filter (\<lambda>p. f (fst p) = k) ys = filter (\<lambda>p. f (fst p) = k) (placed @ rest))"
  using assms(2-4)
proof (induction rest arbitrary: placed)
  case Nil
  then show ?case by simp
next
  case (Cons pivot rest)
  let ?g = "\<lambda>p. f (fst p)"
  from Cons.prems have K: "fst pivot \<in> K" "set (map fst placed) \<subseteq> K" by auto
  from Cons.prems(3) have srt: "sorted (map f (map fst placed))" by (simp add: comp_def)
  have "\<exists>i. bisect (fst pivot) (map fst placed) 0 (length (map fst placed)) = Inr i
      \<and> i \<le> length (map fst placed)
      \<and> (\<forall>j<i. f (map fst placed ! j) \<le> f (fst pivot))
      \<and> (\<forall>j. i \<le> j \<and> j < length (map fst placed)
            \<longrightarrow> f (fst pivot) < f (map fst placed ! j))"
    by (rule bisect_place [OF assms(1) K srt]) auto
  then obtain i where i: "bisect (fst pivot) (map fst placed) 0 (length placed) = Inr i"
    "i \<le> length placed"
    "\<forall>j<i. f (map fst placed ! j) \<le> f (fst pivot)"
    "\<forall>j. i \<le> j \<and> j < length placed \<longrightarrow> f (fst pivot) < f (map fst placed ! j)"
    by auto
  from i(2,3) have below: "\<forall>j<i. ?g (placed ! j) \<le> ?g pivot" by simp
  from i(4) have above: "\<forall>j. i \<le> j \<and> j < length placed \<longrightarrow> ?g pivot < ?g (placed ! j)"
    by simp
  let ?placed = "take i placed @ pivot # drop i placed"
  note ins = insert_at_place [of ?g placed i pivot, OF Cons.prems(3) i(2) below above]
  have "set ?placed \<subseteq> insert pivot (set placed)"
    by (auto dest: in_set_takeD in_set_dropD)
  then have "fst ` set ?placed \<subseteq> K"
    using Cons.prems(1) K(1) by auto
  moreover have "fst ` set rest \<subseteq> K" using Cons.prems(2) by auto
  ultimately obtain ys where ys: "binarysort ?placed rest = Inr ys"
    "sorted (map ?g ys)"
    "\<forall>k. filter (\<lambda>p. ?g p = k) ys = filter (\<lambda>p. ?g p = k) (?placed @ rest)"
    using Cons.IH [of ?placed] ins(1) by blast
  have "filter (\<lambda>p. ?g p = k) ys = filter (\<lambda>p. ?g p = k) (placed @ pivot # rest)" for k
  proof -
    from ys(3) have "filter (\<lambda>p. ?g p = k) ys
        = filter (\<lambda>p. ?g p = k) ?placed @ filter (\<lambda>p. ?g p = k) rest" by simp
    also have "filter (\<lambda>p. ?g p = k) ?placed = filter (\<lambda>p. ?g p = k) (placed @ [pivot])"
      by (rule ins(2))
    finally show ?thesis by simp
  qed
  with ys(1,2) i(1) show ?case by simp
qed

lemma filter_strictly_descending:
  fixes g :: "'a \<Rightarrow> 'k::linorder"
  assumes "sorted_wrt (\<lambda>a b. g b < g a) zs"
  shows "filter (\<lambda>p. g p = k) (rev zs) = filter (\<lambda>p. g p = k) zs"
  using assms
proof (induction zs)
  case Nil
  then show ?case by simp
next
  case (Cons z zs)
  then have IH: "filter (\<lambda>p. g p = k) (rev zs) = filter (\<lambda>p. g p = k) zs" by simp
  show ?case
  proof (cases "g z = k")
    case True
    with Cons.prems have "filter (\<lambda>p. g p = k) zs = []"
      by (auto simp: filter_empty_conv)
    with IH True show ?thesis by simp
  next
    case False
    with IH show ?thesis by simp
  qed
qed

lemma listsort_ordered:
  fixes f :: "json \<Rightarrow> 'k::linorder"
  assumes "\<And>a b. a \<in> K \<Longrightarrow> b \<in> K \<Longrightarrow> py_lt a b = Inr (f a < f b)"
    and "fst ` set xs \<subseteq> K"
  shows "\<exists>ys. listsort xs = Inr ys
    \<and> sorted (map (\<lambda>p. f (fst p)) ys)
    \<and> (\<forall>k. filter (\<lambda>p. f (fst p) = k) ys = filter (\<lambda>p. f (fst p) = k) xs)"
proof (cases "length xs < 2")
  case True
  then have "xs = [] \<or> (\<exists>x. xs = [x])"
    by (cases xs; cases "tl xs") auto
  then have "sorted (map (\<lambda>p. f (fst p)) xs)" by auto
  with True show ?thesis by (simp add: listsort_def)
next
  case False
  let ?g = "\<lambda>p. f (fst p)"
  from assms(2) have "set (map fst xs) \<subseteq> K" by auto
  from count_run_run [of K f "map fst xs", OF assms(1) this] obtain n d where
    run: "count_run (map fst xs) = Inr (n, d)" "n \<le> length xs"
      "if d then sorted_wrt (\<lambda>a b. f b < f a) (take n (map fst xs))
       else sorted_wrt (\<lambda>a b. f a \<le> f b) (take n (map fst xs))"
    by auto
  let ?placed = "if d then rev (take n xs) else take n xs"
  have placed: "sorted (map ?g ?placed)
      \<and> (\<forall>k. filter (\<lambda>p. ?g p = k) ?placed = filter (\<lambda>p. ?g p = k) (take n xs))"
  proof (cases d)
    case True
    with run(3) have desc: "sorted_wrt (\<lambda>p q. ?g q < ?g p) (take n xs)"
      by (simp add: take_map sorted_wrt_map)
    then have "sorted_wrt (\<lambda>p q. ?g p < ?g q) (rev (take n xs))"
      by (simp add: sorted_wrt_rev)
    then have "sorted_wrt (\<lambda>p q. ?g p \<le> ?g q) (rev (take n xs))"
      by (rule sorted_wrt_mono_rel [rotated]) simp
    then have "sorted (map ?g (rev (take n xs)))"
      by (simp add: sorted_wrt_map)
    with filter_strictly_descending [OF desc] True show ?thesis by simp
  next
    case False
    with run(3) have "sorted (map ?g (take n xs))"
      by (simp add: take_map sorted_wrt_map)
    with False show ?thesis by simp
  qed
  have "set ?placed \<subseteq> set xs" "set (drop n xs) \<subseteq> set xs"
    by (auto dest: in_set_takeD in_set_dropD)
  with assms(2) have "fst ` set ?placed \<subseteq> K" "fst ` set (drop n xs) \<subseteq> K"
    by blast+
  from binarysort_ordered [of K f ?placed "drop n xs", OF assms(1) this] placed
  obtain ys where ys: "binarysort ?placed (drop n xs) = Inr ys"
    "sorted (map ?g ys)"
    "\<forall>k. filter (\<lambda>p. ?g p = k) ys = filter (\<lambda>p. ?g p = k) (?placed @ drop n xs)"
    by blast
  have "filter (\<lambda>p. ?g p = k) ys = filter (\<lambda>p. ?g p = k) xs" for k
  proof -
    from ys(3) have "filter (\<lambda>p. ?g p = k) ys
        = filter (\<lambda>p. ?g p = k) ?placed @ filter (\<lambda>p. ?g p = k) (drop n xs)"
      by simp
    also have "\<dots> = filter (\<lambda>p. ?g p = k) (take n xs) @ filter (\<lambda>p. ?g p = k) (drop n xs)"
      using placed by simp
    also have "\<dots> = filter (\<lambda>p. ?g p = k) xs"
      by (metis append_take_drop_id filter_append)
    finally show ?thesis .
  qed
  with ys(1,2) run(1) False show ?thesis by (simp add: listsort_def)
qed


lemma list_sort_ordered:
  fixes f :: "json \<Rightarrow> 'k::linorder"
  assumes "\<And>a b. a \<in> K \<Longrightarrow> b \<in> K \<Longrightarrow> py_lt a b = Inr (f a < f b)"
    and "traverse key xs = Inr keys"
    and "set keys \<subseteq> K"
    and "ordered_keys keys"
  shows "\<exists>ys. list_sort key True xs = Inr ys
    \<and> sorted_wrt (\<lambda>a b. f (projr (key b)) \<le> f (projr (key a))) ys
    \<and> (\<forall>k. filter (\<lambda>e. f (projr (key e)) = k) ys = filter (\<lambda>e. f (projr (key e)) = k) xs)"
proof -
  let ?g = "\<lambda>p. f (fst p)"
  let ?h = "\<lambda>e. f (projr (key e))"
  let ?zs = "zip keys xs"
  from assms(2) have rel: "list_all2 (\<lambda>x k. key x = Inr k) xs keys"
    by (simp add: traverse_Inr_iff)
  then have len: "length keys = length xs" by (simp add: list_all2_lengthD)
  have keyed: "?h (snd p) = ?g p" if "p \<in> set ?zs" for p
  proof -
    from that obtain i where i: "i < length xs" "p = (keys ! i, xs ! i)"
      using len by (auto simp: set_zip)
    from list_all2_nthD [OF rel i(1)] i(2) show ?thesis by simp
  qed
  have "fst ` set (rev ?zs) \<subseteq> K"
    using assms(3) by (auto dest: set_zip_leftD)
  from listsort_ordered [of K f "rev ?zs", OF assms(1) this] obtain ranked where
    ranked: "listsort (rev ?zs) = Inr ranked" "sorted (map ?g ranked)"
      "\<forall>k. filter (\<lambda>p. ?g p = k) ranked = filter (\<lambda>p. ?g p = k) (rev ?zs)"
    by blast
  from listsort_mset [OF ranked(1)] have "set ranked = set (rev ?zs)"
    by (rule mset_eq_setD)
  then have same: "set ranked = set ?zs" by simp
  have keyed': "?h (snd p) = ?g p" if "p \<in> set ranked" for p
    using that keyed same by simp
  let ?ys = "map snd (rev ranked)"
  have result: "list_sort key True xs = Inr ?ys"
    using assms(2,4) ranked(1) by (simp add: list_sort_def)
  from ranked(2) have "sorted_wrt (\<lambda>p q. ?g p \<le> ?g q) ranked"
    by (simp add: sorted_wrt_map)
  then have "sorted_wrt (\<lambda>p q. ?g q \<le> ?g p) (rev ranked)"
    by (simp add: sorted_wrt_rev)
  then have "sorted_wrt (\<lambda>p q. ?h (snd q) \<le> ?h (snd p)) (rev ranked)"
    by (rule sorted_wrt_mono_rel [rotated]) (simp add: keyed')
  then have srt: "sorted_wrt (\<lambda>a b. ?h b \<le> ?h a) ?ys"
    by (simp add: sorted_wrt_map)
  have stable: "filter (\<lambda>e. ?h e = k) ?ys = filter (\<lambda>e. ?h e = k) xs" for k
  proof -
    have "filter (\<lambda>e. ?h e = k) ?ys = map snd (filter (\<lambda>p. ?h (snd p) = k) (rev ranked))"
      by (simp add: filter_map comp_def)
    also have "filter (\<lambda>p. ?h (snd p) = k) (rev ranked) = filter (\<lambda>p. ?g p = k) (rev ranked)"
      by (rule filter_cong) (simp_all add: keyed')
    also have "\<dots> = rev (filter (\<lambda>p. ?g p = k) ranked)" by (simp add: rev_filter)
    also have "\<dots> = rev (filter (\<lambda>p. ?g p = k) (rev ?zs))" using ranked(3) by simp
    also have "\<dots> = filter (\<lambda>p. ?g p = k) ?zs" by (simp add: rev_filter)
    also have "\<dots> = filter (\<lambda>p. ?h (snd p) = k) ?zs"
      by (rule filter_cong) (simp_all add: keyed)
    also have "map snd \<dots> = filter (\<lambda>e. ?h e = k) (map snd ?zs)"
      by (simp add: filter_map comp_def)
    also have "map snd ?zs = xs" using len by simp
    finally show ?thesis .
  qed
  from result srt stable show ?thesis by blast
qed

lemma py_lt_numbers:
  "ext_val a = Some x \<Longrightarrow> ext_val b = Some y \<Longrightarrow> py_lt a b = Inr (x < y)"
  by (cases a; cases b) (simp_all add: num_lt_def)

lemma ext_val_number: "ext_val k \<noteq> None \<longleftrightarrow> is_number k \<and> k \<noteq> JNaN"
  by (cases k) simp_all

lemma num_val_ext_val: "num_val k = Some v \<Longrightarrow> ext_val k = Some (0, v)"
  by (cases k) (auto split: if_splits)

lemma py_eq_numbers:
  "ext_val a = Some x \<Longrightarrow> py_eq a b \<longleftrightarrow> ext_val b = Some x"
  by (cases a; cases b) (auto split: if_splits)

lemma list_sort_numbers:
  assumes "traverse key xs = Inr keys"
    and "\<forall>k\<in>set keys. ext_val k \<noteq> None"
  shows "\<exists>ys. list_sort key True xs = Inr ys
    \<and> sorted_wrt (\<lambda>a b. the (ext_val (projr (key b))) \<le> the (ext_val (projr (key a)))) ys
    \<and> (\<forall>k. filter (\<lambda>e. the (ext_val (projr (key e))) = k) ys
          = filter (\<lambda>e. the (ext_val (projr (key e))) = k) xs)"
proof (rule list_sort_ordered [where K = "{k. ext_val k \<noteq> None}"
      and f = "\<lambda>k. the (ext_val k)", OF _ assms(1)])
  fix a b assume "a \<in> {k. ext_val k \<noteq> None}" "b \<in> {k. ext_val k \<noteq> None}"
  then obtain x y where "ext_val a = Some x" "ext_val b = Some y" by auto
  then show "py_lt a b = Inr (the (ext_val a) < the (ext_val b))"
    by (simp add: py_lt_numbers)
next
  show "set keys \<subseteq> {k. ext_val k \<noteq> None}" using assms(2) by auto
  show "ordered_keys keys" using assms(2) by (simp add: ordered_keys_def)
qed

lemma handler_Inr:
  assumes "fst (handler lib data context) = Inr (txt, ct)"
  obtains body ids paired entries where
    "handler_item_ids lib data context = Inr (body, ids)"
    and "handler_item_prediction_scores lib context ids
           (requests_post lib (rest_uri context) body) = Inr (paired, ct)"
    and "list_sort order_item_predictions True paired = Inr entries"
    and "txt = json_dumps (float_repr lib) (JObj [(''predictions'', JArr entries)])"
    and "snd (handler lib data context) = [(rest_uri context, body)]"
  using assms by (auto simp: handler_def split: sum.splits prod.splits)

lemma table_library_simps:
  "bytes_decode (table_library parses reprs posted) = Inr"
  "json_loads (table_library parses reprs posted) s =
     (case map_of parses s of None \<Rightarrow> Inl JSONDecodeError | Some v \<Rightarrow> Inr v)"
  "float_repr (table_library parses reprs posted) r =
     (case map_of reprs r of None \<Rightarrow> [] | Some s \<Rightarrow> s)"
  "requests_post (table_library parses reprs posted) uri body = posted"
  by (simp_all add: table_library_def)

lemma handler_item_ids_valid:
  assumes "request_content_type context = Some ''application/json''"
    and "bytes_decode lib data = Inr body"
    and "json_loads lib body = Inr request"
    and "py_getitem request ''instances'' = Inr (JArr instances)"
    and "traverse instance_item_id instances = Inr ids"
  shows "handler_item_ids lib data context = Inr (body, ids)"
  using assms by (simp add: handler_item_ids_def process_input_json item_ids_loop_traverse)

lemma handler_item_prediction_scores_valid:
  assumes "status_code reply = 200"
    and "bytes_decode lib (content reply) = Inr reply_text"
    and "json_loads lib reply_text = Inr reply_json"
    and "py_getitem reply_json ''predictions'' = Inr (JArr predictions)"
    and "traverse item_prediction_score (zip ids predictions) = Inr paired"
  shows "handler_item_prediction_scores lib context ids (Inr reply)
           = Inr (paired, accept_header context)"
  using assms by (simp add: handler_item_prediction_scores_def process_output_def)

lemma show_int_0: "show_int 0 = ''0''"
  by code_simp

lemma show_int_1: "show_int 1 = ''1''"
  by code_simp

lemma scenario_run:
  \<open>handler scenario_library scenario_request json_context =
    (Inr (''{"predictions": [{"item_id": 0, "prediction": 0.9}, {"item_id": 1, "prediction": 0.2}]}'',
          Some ''application/json''),
     [(''http://localhost:8501/v1/models/ncf:predict'', scenario_request)])\<close>
  by (simp add: handler_def handler_item_ids_def handler_item_prediction_scores_def
      process_input_def process_output_def scenario_library_def table_library_simps
      json_context_def scenario_request_def scenario_request_json_def scenario_reply_def
      scenario_reply_json_def instance_item_id_def item_prediction_score_def list_sort_def listsort_def bisect.simps num_lt_def
      order_item_predictions_def double_0_2_def double_0_9_def show_int_0 show_int_1
      encode_string_def escape_char_def)

lemma show_int_2: "show_int 2 = ''2''"
  by code_simp

lemma tie_run:
  \<open>handler tie_library tie_request json_context =
    (Inr (''{"predictions": [{"item_id": 0, "prediction": 2}, {"item_id": 1, "prediction": 1}, {"item_id": 2, "prediction": 1}]}'',
          Some ''application/json''),
     [(''http://localhost:8501/v1/models/ncf:predict'', tie_request)])\<close>
  by (simp add: handler_def handler_item_ids_def handler_item_prediction_scores_def
      process_input_def process_output_def tie_library_def table_library_simps
      json_context_def tie_request_def tie_request_json_def tie_reply_def
      tie_reply_json_def instance_item_id_def item_prediction_score_def list_sort_def listsort_def bisect.simps num_lt_def
      order_item_predictions_def show_int_0 show_int_1 show_int_2
      encode_string_def escape_char_def)

lemma paired_item_ids:
  assumes "traverse item_prediction_score (zip ids predictions) = Inr paired"
  shows "length paired = min (length ids) (length predictions)"
    and "map (\<lambda>e. py_getitem e ''item_id'') paired
          = map (\<lambda>i. Inr (JInt (int i))) (take (length paired) ids)"
proof -
  from assms have rel: "list_all2 (\<lambda>ip e. item_prediction_score ip = Inr e) (zip ids predictions) paired"
    by (simp add: traverse_Inr_iff)
  then have "length (zip ids predictions) = length paired" by (rule list_all2_lengthD)
  then show len: "length paired = min (length ids) (length predictions)" by simp
  show "map (\<lambda>e. py_getitem e ''item_id'') paired
          = map (\<lambda>i. Inr (JInt (int i))) (take (length paired) ids)"
  proof (rule nth_equalityI)
    show "length (map (\<lambda>e. py_getitem e ''item_id'') paired)
        = length (map (\<lambda>i. Inr (JInt (int i))) (take (length paired) ids))"
      using len by simp
  next
    fix k assume "k < length (map (\<lambda>e. py_getitem e ''item_id'') paired)"
    then have k: "k < length paired" by simp
    with len have k': "k < length (zip ids predictions)" by simp
    from list_all2_nthD [OF rel k'] have "item_prediction_score (zip ids predictions ! k) = Inr (paired ! k)" .
    then have "\<exists>p0. JObj [(''item_id'', JInt (int (ids ! k))), (''prediction'', p0)] = paired ! k"
      using k' by (cases "py_getitem0 (predictions ! k)") (auto simp: item_prediction_score_def)
    then obtain p0 where
      "paired ! k = JObj [(''item_id'', JInt (int (ids ! k))), (''prediction'', p0)]"
      by (auto dest: sym)
    then have "py_getitem (paired ! k) ''item_id'' = Inr (JInt (int (ids ! k)))"
      by simp
    with k len show "map (\<lambda>e. py_getitem e ''item_id'') paired ! k
        = map (\<lambda>i. Inr (JInt (int i))) (take (length paired) ids) ! k"
      by simp
  qed
qed

lemma traverse_nth:
  assumes "traverse f xs = Inr ys" and "k < length xs"
  shows "f (xs ! k) = Inr (ys ! k)"
proof -
  from assms(1) have "list_all2 (\<lambda>x y. f x = Inr y) xs ys"
    by (simp add: traverse_Inr_iff)
  from list_all2_nthD [OF this assms(2)] show ?thesis .
qed

lemma instance_item_id_first_one:
  assumes "py_getitem inst ''input_2'' = Inr (JArr vec)" and "\<exists>x\<in>set vec. py_eq_int x 1"
  obtains i where "instance_item_id inst = Inr i" and "i < length vec"
    and "py_eq_int (vec ! i) 1" and "\<forall>j<i. \<not> py_eq_int (vec ! j) 1"
proof -
  from list_index_found [OF assms(2)] obtain i where i: "list_index vec = Inr i" ..
  with assms(1) have "instance_item_id inst = Inr i"
    by (simp add: instance_item_id_def)
  with list_index_Inr [OF i] show thesis by (intro that) auto
qed

lemma item_ids_total:
  assumes "\<forall>inst\<in>set instances. \<exists>vec. py_getitem inst ''input_2'' = Inr (JArr vec)
             \<and> (\<exists>x\<in>set vec. py_eq_int x 1)"
  obtains ids where "traverse instance_item_id instances = Inr ids"
    and "length ids = length instances"
proof -
  have "\<forall>inst\<in>set instances. \<exists>i. instance_item_id inst = Inr i"
    using assms by (meson instance_item_id_first_one)
  from traverse_total [OF this] obtain ids where
    ids: "traverse instance_item_id instances = Inr ids" ..
  then have "list_all2 (\<lambda>x y. instance_item_id x = Inr y) instances ids"
    by (simp add: traverse_Inr_iff)
  then have "length instances = length ids" by (rule list_all2_lengthD)
  with ids show thesis by (intro that) auto
qed

lemma paired_total:
  assumes "\<forall>p\<in>set (take (length ids) predictions). \<exists>x xs v. p = JArr (x # xs) \<and> num_val x = Some v"
  obtains paired where "traverse item_prediction_score (zip ids predictions) = Inr paired"
proof -
  have "\<exists>e. item_prediction_score ip = Inr e" if "ip \<in> set (zip ids predictions)" for ip
  proof -
    from that obtain k where k: "k < length ids" "k < length predictions"
      "ip = (ids ! k, predictions ! k)"
      by (auto simp: set_zip)
    then have "predictions ! k \<in> set (take (length ids) predictions)"
      by (auto simp: in_set_conv_nth intro!: exI [of _ k])
    with assms obtain x xs where "predictions ! k = JArr (x # xs)" by blast
    with k show ?thesis by (simp add: item_prediction_score_def)
  qed
  then have "\<forall>ip\<in>set (zip ids predictions). \<exists>e. item_prediction_score ip = Inr e" by blast
  from traverse_total [OF this] show thesis using that by blast
qed

lemma list_all2_swap:
  "list_all2 P xs ys \<Longrightarrow> list_all2 (\<lambda>y x. P x y) ys xs"
  by (induction rule: list_all2_induct) auto

lemma paired_entries:
  assumes "traverse item_prediction_score (zip ids predictions) = Inr paired"
  shows "list_all2 (\<lambda>e ip. \<exists>p0. py_getitem0 (snd ip) = Inr p0
           \<and> e = JObj [(''item_id'', JInt (int (fst ip))), (''prediction'', p0)])
         paired (zip ids predictions)"
proof -
  from assms have "list_all2 (\<lambda>ip e. item_prediction_score ip = Inr e) (zip ids predictions) paired"
    by (simp add: traverse_Inr_iff)
  then have "list_all2 (\<lambda>e ip. item_prediction_score ip = Inr e) paired (zip ids predictions)"
    by (rule list_all2_swap)
  then show ?thesis
    by (rule list_all2_mono) (auto simp: item_prediction_score_def split: sum.splits)
qed

lemma list_sort_total:
  assumes "\<forall>e\<in>set xs. \<exists>x v. order_item_predictions e = Inr x \<and> num_val x = Some v"
  obtains ys where "list_sort order_item_predictions True xs = Inr ys"
proof -
  from assms have "\<forall>e\<in>set xs. \<exists>x. order_item_predictions e = Inr x" by blast
  from traverse_total [OF this] obtain keys where
    keys: "traverse order_item_predictions xs = Inr keys" ..
  then have rel: "list_all2 (\<lambda>e x. order_item_predictions e = Inr x) xs keys"
    by (simp add: traverse_Inr_iff)
  have "ext_val x \<noteq> None" if "x \<in> set keys" for x
  proof -
    from that obtain k where k: "k < length keys" "x = keys ! k"
      by (auto simp: in_set_conv_nth)
    from rel have len: "length xs = length keys" by (rule list_all2_lengthD)
    with k have "order_item_predictions (xs ! k) = Inr x"
      using list_all2_nthD [OF rel, of k] by simp
    moreover from k len have "xs ! k \<in> set xs" by simp
    ultimately obtain v where "num_val x = Some v" using assms by fastforce
    then show ?thesis by (simp add: num_val_ext_val)
  qed
  then have "\<forall>k\<in>set keys. ext_val k \<noteq> None" by blast
  from list_sort_numbers [OF keys this] show thesis using that by blast
qed

lemma handler_ranks:
  assumes "request_content_type context = Some ''application/json''"
    and "bytes_decode lib data = Inr body"
    and "json_loads lib body = Inr request"
    and "py_getitem request ''instances'' = Inr (JArr instances)"
    and "\<forall>inst\<in>set instances. \<exists>vec. py_getitem inst ''input_2'' = Inr (JArr vec)
           \<and> (\<exists>x\<in>set vec. py_eq_int x 1)"
    and "requests_post lib (rest_uri context) body = Inr reply"
    and "status_code reply = 200"
    and "bytes_decode lib (content reply) = Inr reply_text"
    and "json_loads lib reply_text = Inr reply_json"
    and "py_getitem reply_json ''predictions'' = Inr (JArr predictions)"
    and "\<forall>p\<in>set (take (length instances) predictions).
           \<exists>x xs v. p = JArr (x # xs) \<and> num_val x = Some v"
  obtains ids paired entries where
    "traverse instance_item_id instances = Inr ids"
    and "length ids = length instances"
    and "traverse item_prediction_score (zip ids predictions) = Inr paired"
    and "list_sort order_item_predictions True paired = Inr entries"
    and "handler lib data context =
          (Inr (json_dumps (float_repr lib) (JObj [(''predictions'', JArr entries)]),
                accept_header context),
           [(rest_uri context, body)])"
proof -
  from item_ids_total [OF assms(5)] obtain ids where
    ids: "traverse instance_item_id instances = Inr ids" "length ids = length instances" .
  from assms(11) ids(2) have
    scores: "\<forall>p\<in>set (take (length ids) predictions). \<exists>x xs v. p = JArr (x # xs) \<and> num_val x = Some v"
    by simp
  from paired_total [OF scores] obtain paired where
    paired: "traverse item_prediction_score (zip ids predictions) = Inr paired" .
  have "\<exists>x v. order_item_predictions e = Inr x \<and> num_val x = Some v" if "e \<in> set paired" for e
  proof -
    from that obtain k where k: "k < length paired" "e = paired ! k"
      by (auto simp: in_set_conv_nth)
    note rel = paired_entries [OF paired]
    from rel have len: "length paired = length (zip ids predictions)" by (rule list_all2_lengthD)
    from list_all2_nthD [OF rel k(1)] k(2) obtain p0 where
      p0: "py_getitem0 (snd (zip ids predictions ! k)) = Inr p0"
        "e = JObj [(''item_id'', JInt (int (fst (zip ids predictions ! k)))), (''prediction'', p0)]"
      by blast
    from k(1) len have kk: "k < length ids" "k < length predictions" by simp_all
    then have "predictions ! k \<in> set (take (length ids) predictions)"
      by (auto simp: in_set_conv_nth intro!: exI [of _ k])
    with scores obtain x xs v where "predictions ! k = JArr (x # xs)" "num_val x = Some v"
      by blast
    with p0 kk show ?thesis by (simp add: order_item_predictions_def)
  qed
  then have "\<forall>e\<in>set paired. \<exists>x v. order_item_predictions e = Inr x \<and> num_val x = Some v"
    by blast
  from list_sort_total [OF this] obtain entries where
    entries: "list_sort order_item_predictions True paired = Inr entries" .
  have "handler lib data context =
          (Inr (json_dumps (float_repr lib) (JObj [(''predictions'', JArr entries)]),
                accept_header context),
           [(rest_uri context, body)])"
    by (simp add: handler_def handler_item_ids_valid [OF assms(1-4) ids(1)] assms(6)
        handler_item_prediction_scores_valid [OF assms(7-10) paired] entries)
  with ids paired entries show thesis by (rule that)
qed

lemma short_run:
  \<open>handler short_library scenario_request json_context =
    (Inr (''{"predictions": [{"item_id": 1, "prediction": 0.9}]}'', Some ''application/json''),
     [(''http://localhost:8501/v1/models/ncf:predict'', scenario_request)])\<close>
  by (simp add: handler_def handler_item_ids_def handler_item_prediction_scores_def
      process_input_def process_output_def short_library_def table_library_simps
      json_context_def scenario_request_def scenario_request_json_def short_reply_def
      instance_item_id_def item_prediction_score_def list_sort_def listsort_def bisect.simps num_lt_def
      order_item_predictions_def double_0_9_def show_int_1
      encode_string_def escape_char_def)

lemma long_run:
  \<open>handler long_library scenario_request json_context =
    (Inr (''{"predictions": [{"item_id": 0, "prediction": 0.9}, {"item_id": 1, "prediction": 0.2}]}'',
          Some ''application/json''),
     [(''http://localhost:8501/v1/models/ncf:predict'', scenario_request)])\<close>
  by (simp add: handler_def handler_item_ids_def handler_item_prediction_scores_def
      process_input_def process_output_def long_library_def table_library_simps
      json_context_def scenario_request_def scenario_request_json_def long_reply_def
      instance_item_id_def item_prediction_score_def list_sort_def listsort_def bisect.simps num_lt_def
      order_item_predictions_def double_0_2_def double_0_9_def show_int_0 show_int_1
      encode_string_def escape_char_def)

subsection \<open>The ranking as pairs of an item id and a score\<close>

lemma ranked_prediction_inj: "inj ranked_prediction"
  by (rule injI) (auto simp: ranked_prediction_def prod_eq_iff)

lemma ranked_prediction_map_eq:
  "map ranked_prediction xs = map ranked_prediction ys \<longleftrightarrow> xs = ys"
  by (simp add: inj_map_eq_map ranked_prediction_inj)

lemma ranked_prediction_key: "order_item_predictions (ranked_prediction p) = Inr (snd p)"
  by (simp add: order_item_predictions_def ranked_prediction_def)

lemma ranked_prediction_keys:
  "traverse order_item_predictions (map ranked_prediction batch) = Inr (map snd batch)"
  by (simp add: traverse_Inr_iff list_all2_conv_all_nth ranked_prediction_key)

lemma num_ge_numbers:
  "ext_val a = Some x \<Longrightarrow> ext_val b = Some y \<Longrightarrow> num_ge a b = Inr (y \<le> x)"
  using ext_val_number [of a] ext_val_number [of b] by (simp add: num_ge_def)

lemma handler_item_prediction_scores_Inr:
  assumes "handler_item_prediction_scores lib context ids posted = Inr (paired, ct)"
  obtains predictions where
    "traverse item_prediction_score (zip ids predictions) = Inr paired"
  using assms
  by (auto simp: handler_item_prediction_scores_def split: sum.splits prod.splits)

lemma handler_ranked:
  assumes "fst (handler lib data context) = Inr (out, ct)"
  obtains body ids batch ranked where
    "handler_item_ids lib data context = Inr (body, ids)"
    and "handler_item_prediction_scores lib context ids
           (requests_post lib (rest_uri context) body) = Inr (map ranked_prediction batch, ct)"
    and "map fst batch = take (length batch) ids"
    and "list_sort order_item_predictions True (map ranked_prediction batch)
           = Inr (map ranked_prediction ranked)"
    and "mset ranked = mset batch"
    and "out = json_dumps (float_repr lib)
                 (JObj [(''predictions'', JArr (map ranked_prediction ranked))])"
proof -
  from assms obtain body ids paired entries where
    ids: "handler_item_ids lib data context = Inr (body, ids)"
    and paired: "handler_item_prediction_scores lib context ids
           (requests_post lib (rest_uri context) body) = Inr (paired, ct)"
    and entries: "list_sort order_item_predictions True paired = Inr entries"
    and out: "out = json_dumps (float_repr lib) (JObj [(''predictions'', JArr entries)])"
    by (rule handler_Inr)
  from paired obtain predictions where
    trav: "traverse item_prediction_score (zip ids predictions) = Inr paired"
    by (rule handler_item_prediction_scores_Inr)
  from paired_entries [OF trav]
  have "\<forall>e\<in>set paired. \<exists>p. e = ranked_prediction p"
    by (fastforce simp: list_all2_conv_all_nth in_set_conv_nth ranked_prediction_def)
  then have "\<exists>batch. paired = map ranked_prediction batch" by (simp only: ex_map_conv)
  then obtain batch where batch: "paired = map ranked_prediction batch" ..
  from list_sort_mset [OF entries] have m: "mset entries = mset paired" .
  then have "set entries = set paired" by (rule mset_eq_setD)
  with \<open>\<forall>e\<in>set paired. \<exists>p. e = ranked_prediction p\<close>
  have "\<forall>e\<in>set entries. \<exists>p. e = ranked_prediction p" by simp
  then have "\<exists>ranked. entries = map ranked_prediction ranked" by (simp only: ex_map_conv)
  then obtain ranked where ranked: "entries = map ranked_prediction ranked" ..
  from m batch ranked
  have "image_mset ranked_prediction (mset ranked) = image_mset ranked_prediction (mset batch)"
    by simp
  then have mr: "mset ranked = mset batch"
    by (rule injD [OF multiset.inj_map [OF ranked_prediction_inj]])
  have "map (\<lambda>p. Inr (JInt (int (fst p))) :: pyerror + json) batch
          = map (\<lambda>i. Inr (JInt (int i))) (take (length batch) ids)"
    using paired_item_ids(2) [OF trav] batch
    by (simp add: ranked_prediction_def comp_def)
  then have "map ((\<lambda>i. Inr (JInt (int i)) :: pyerror + json) \<circ> fst) batch
          = map (\<lambda>i. Inr (JInt (int i))) (take (length batch) ids)"
    by (simp add: comp_def)
  then have "map (\<lambda>i. Inr (JInt (int i)) :: pyerror + json) (map fst batch)
          = map (\<lambda>i. Inr (JInt (int i))) (take (length batch) ids)"
    by simp
  then have fst: "map fst batch = take (length batch) ids"
    by (rule map_injective) (simp add: inj_on_def)
  show thesis
    using that [OF ids paired [unfolded batch] fst entries [unfolded batch ranked] mr
        out [unfolded ranked]] .
qed


lemma show_int_3: "show_int 3 = ''3''" by code_simp
lemma show_int_4: "show_int 4 = ''4''" by code_simp
lemma show_int_5: "show_int 5 = ''5''" by code_simp
lemma show_int_6: "show_int 6 = ''6''" by code_simp

lemma nan_run:
  \<open>handler nan_library nan_request json_context =
    (Inr (''{"predictions": [{"item_id": 0, "prediction": 0.5}, {"item_id": 1, "prediction": NaN}, {"item_id": 2, "prediction": 0.9}]}'',
          Some ''application/json''),
     [(''http://localhost:8501/v1/models/ncf:predict'', nan_request)])\<close>
  by (simp add: handler_def handler_item_ids_def handler_item_prediction_scores_def
      process_input_def process_output_def nan_library_def table_library_simps
      json_context_def nan_request_def nan_request_json_def nan_reply_def
      nan_reply_json_def instance_item_id_def item_prediction_score_def list_sort_def
      listsort_def bisect.simps num_lt_def double_0_9_def
      order_item_predictions_def show_int_0 show_int_1 show_int_2
      encode_string_def escape_char_def)

lemma nan_sort:
  "list_sort order_item_predictions True
     (map ranked_prediction [(0, JFloat (1 / 2)), (1, JNaN), (2, JFloat double_0_9)])
   = Inr (map ranked_prediction [(0, JFloat (1 / 2)), (1, JNaN), (2, JFloat double_0_9)])"
  by (simp add: list_sort_def listsort_def bisect.simps num_lt_def double_0_9_def
      order_item_predictions_def ranked_prediction_def)

lemma seven_run:
  \<open>handler seven_library seven_request json_context =
    (Inr (''{"predictions": [{"item_id": 1, "prediction": 0.0}, {"item_id": 2, "prediction": NaN}, {"item_id": 6, "prediction": 1.0}, {"item_id": 0, "prediction": 0.0}, {"item_id": 3, "prediction": 0.0}, {"item_id": 4, "prediction": 0.0}, {"item_id": 5, "prediction": 0.0}]}'',
          Some ''application/json''),
     [(''http://localhost:8501/v1/models/ncf:predict'', seven_request)])\<close>
  by (simp add: handler_def handler_item_ids_def handler_item_prediction_scores_def
      process_input_def process_output_def seven_library_def table_library_simps
      json_context_def seven_request_def seven_request_json_def seven_reply_def
      seven_reply_json_def instance_item_id_def item_prediction_score_def list_sort_def
      listsort_def bisect.simps num_lt_def
      order_item_predictions_def show_int_0 show_int_1 show_int_2 show_int_3 show_int_4
      show_int_5 show_int_6
      encode_string_def escape_char_def)

lemma seven_sort:
  "list_sort order_item_predictions True
     (map ranked_prediction
        [(0, JFloat 0), (1, JFloat 0), (2, JNaN), (3, JFloat 0), (4, JFloat 0), (5, JFloat 0),
         (6, JFloat 1)])
   = Inr (map ranked_prediction
        [(1, JFloat 0), (2, JNaN), (6, JFloat 1), (0, JFloat 0), (3, JFloat 0), (4, JFloat 0),
         (5, JFloat 0)])"
  by (simp add: list_sort_def listsort_def bisect.simps num_lt_def
      order_item_predictions_def ranked_prediction_def)

lemma scenario_stages:
  "handler_item_ids scenario_library scenario_request json_context
     = Inr (scenario_request, [1, 0])"
  "handler_item_prediction_scores scenario_library json_context [1, 0]
     (requests_post scenario_library (rest_uri json_context) scenario_request)
     = Inr (map ranked_prediction [(1, JFloat double_0_2), (0, JFloat double_0_9)],
            Some ''application/json'')"
  "list_sort order_item_predictions True
     (map ranked_prediction [(1, JFloat double_0_2), (0, JFloat double_0_9)])
     = Inr (map ranked_prediction [(0, JFloat double_0_9), (1, JFloat double_0_2)])"
  by (simp_all add: handler_item_ids_def handler_item_prediction_scores_def
      process_input_def process_output_def scenario_library_def table_library_simps
      json_context_def scenario_request_def scenario_request_json_def scenario_reply_def
      scenario_reply_json_def instance_item_id_def item_prediction_score_def list_sort_def
      listsort_def bisect.simps num_lt_def double_0_9_def double_0_2_def
      order_item_predictions_def ranked_prediction_def)

lemma tie_stages:
  "handler_item_ids tie_library tie_request json_context = Inr (tie_request, [1, 0, 2])"
  "handler_item_prediction_scores tie_library json_context [1, 0, 2]
     (requests_post tie_library (rest_uri json_context) tie_request)
     = Inr (map ranked_prediction [(1, JInt 1), (0, JInt 2), (2, JInt 1)],
            Some ''application/json'')"
  "list_sort order_item_predictions True
     (map ranked_prediction [(1, JInt 1), (0, JInt 2), (2, JInt 1)])
     = Inr (map ranked_prediction [(0, JInt 2), (1, JInt 1), (2, JInt 1)])"
  by (simp_all add: handler_item_ids_def handler_item_prediction_scores_def
      process_input_def process_output_def tie_library_def table_library_simps
      json_context_def tie_request_def tie_request_json_def tie_reply_def
      tie_reply_json_def instance_item_id_def item_prediction_score_def list_sort_def
      listsort_def bisect.simps num_lt_def
      order_item_predictions_def ranked_prediction_def)

lemma numbers_ext_val:
  assumes "\<forall>p\<in>set batch. is_number (snd p) \<and> snd p \<noteq> JNaN"
  shows "\<forall>k\<in>set (map snd batch). ext_val k \<noteq> None"
proof
  fix k assume "k \<in> set (map snd batch)"
  then obtain p where "p \<in> set batch" "k = snd p" by auto
  with assms have "is_number k \<and> k \<noteq> JNaN" by simp
  then show "ext_val k \<noteq> None" by (cases k) simp_all
qed

lemma number_ext_val: "is_number k \<Longrightarrow> k \<noteq> JNaN \<Longrightarrow> \<exists>x. ext_val k = Some x"
  by (cases k) simp_all

lemma ranking_of_numbers:
  assumes "list_sort order_item_predictions True (map ranked_prediction batch)
             = Inr (map ranked_prediction ranked)"
    and "\<forall>p\<in>set batch. is_number (snd p) \<and> snd p \<noteq> JNaN"
  shows "sorted_wrt (\<lambda>a b. the (ext_val (snd b)) \<le> the (ext_val (snd a))) ranked"
    and "filter (\<lambda>p. the (ext_val (snd p)) = k) ranked
           = filter (\<lambda>p. the (ext_val (snd p)) = k) batch"
proof -
  from list_sort_numbers [OF ranked_prediction_keys numbers_ext_val [OF assms(2)]]
  obtain ys where "list_sort order_item_predictions True (map ranked_prediction batch) = Inr ys"
    and s0: "sorted_wrt (\<lambda>a b. the (ext_val (projr (order_item_predictions b)))
                \<le> the (ext_val (projr (order_item_predictions a)))) ys"
    and f0: "\<forall>k. filter (\<lambda>e. the (ext_val (projr (order_item_predictions e))) = k) ys
            = filter (\<lambda>e. the (ext_val (projr (order_item_predictions e))) = k)
              (map ranked_prediction batch)"
    by blast
  with assms(1) have ys: "ys = map ranked_prediction ranked" by simp
  from s0 f0 have s: "sorted_wrt (\<lambda>a b. the (ext_val (projr (order_item_predictions b)))
                \<le> the (ext_val (projr (order_item_predictions a)))) (map ranked_prediction ranked)"
    and f: "filter (\<lambda>e. the (ext_val (projr (order_item_predictions e))) = k)
              (map ranked_prediction ranked)
            = filter (\<lambda>e. the (ext_val (projr (order_item_predictions e))) = k)
              (map ranked_prediction batch)"
    unfolding ys by blast+
  from s show "sorted_wrt (\<lambda>a b. the (ext_val (snd b)) \<le> the (ext_val (snd a))) ranked"
    by (simp add: sorted_wrt_map ranked_prediction_key)
  from f have "map ranked_prediction (filter (\<lambda>p. the (ext_val (snd p)) = k) ranked)
             = map ranked_prediction (filter (\<lambda>p. the (ext_val (snd p)) = k) batch)"
    by (simp add: filter_map comp_def ranked_prediction_key)
  then show "filter (\<lambda>p. the (ext_val (snd p)) = k) ranked
           = filter (\<lambda>p. the (ext_val (snd p)) = k) batch"
    by (simp add: ranked_prediction_map_eq)
qed

lemma ranking_non_increasing:
  assumes "list_sort order_item_predictions True (map ranked_prediction batch)
             = Inr (map ranked_prediction ranked)"
    and "mset ranked = mset batch"
    and "\<forall>p\<in>set batch. is_number (snd p) \<and> snd p \<noteq> JNaN"
  shows "sorted_wrt (\<lambda>a b. num_ge (snd a) (snd b) = Inr True) ranked"
proof -
  from assms(2) have set: "set ranked = set batch" by (rule mset_eq_setD)
  have "sorted_wrt (\<lambda>a b. the (ext_val (snd b)) \<le> the (ext_val (snd a))) ranked"
    by (rule ranking_of_numbers(1) [OF assms(1,3)])
  then show ?thesis
  proof (rule sorted_wrt_mono_rel [rotated])
    fix a b assume "a \<in> set ranked" "b \<in> set ranked"
      and le: "the (ext_val (snd b)) \<le> the (ext_val (snd a))"
    with set assms(3) have "is_number (snd a) \<and> snd a \<noteq> JNaN"
      "is_number (snd b) \<and> snd b \<noteq> JNaN"
      by blast+
    then obtain x y where "ext_val (snd a) = Some x" "ext_val (snd b) = Some y"
      using number_ext_val by blast
    with le show "num_ge (snd a) (snd b) = Inr True" by (simp add: num_ge_numbers)
  qed
qed

lemma ranking_keeps_ties:
  assumes "list_sort order_item_predictions True (map ranked_prediction batch)
             = Inr (map ranked_prediction ranked)"
    and "mset ranked = mset batch"
    and "\<forall>p\<in>set batch. is_number (snd p) \<and> snd p \<noteq> JNaN"
  shows "filter (\<lambda>p. py_eq (snd p) v) ranked = filter (\<lambda>p. py_eq (snd p) v) batch"
proof -
  from assms(2) have set: "set ranked = set batch" by (rule mset_eq_setD)
  have eq: "py_eq (snd p) v \<longleftrightarrow> ext_val v = Some (the (ext_val (snd p)))"
    if "p \<in> set batch" for p
  proof -
    from that assms(3) have "is_number (snd p) \<and> snd p \<noteq> JNaN" by blast
    then obtain x where "ext_val (snd p) = Some x"
      using number_ext_val by blast
    then show ?thesis by (simp add: py_eq_numbers)
  qed
  show ?thesis
  proof (cases "ext_val v")
    case None
    with eq set show ?thesis by (simp cong: filter_cong)
  next
    case (Some k)
    have "filter (\<lambda>p. py_eq (snd p) v) ranked = filter (\<lambda>p. the (ext_val (snd p)) = k) ranked"
      using eq set Some by (auto intro!: filter_cong)
    also have "\<dots> = filter (\<lambda>p. the (ext_val (snd p)) = k) batch"
      by (rule ranking_of_numbers(2) [OF assms(1,3)])
    also have "\<dots> = filter (\<lambda>p. py_eq (snd p) v) batch"
      using eq Some by (auto intro!: filter_cong)
    finally show ?thesis .
  qed
qed

subsection \<open>The message of the content type error\<close>




section \<open>The claims\<close>

text \<open>
  C1, as amended. In the scenario of the specification (the batch of the two instances
  \<^verbatim>\<open>[0,1,0]\<close> and \<^verbatim>\<open>[1,0,0]\<close>, a status-200 reply with the predictions
  \<^verbatim>\<open>[[0.2],[0.9]]\<close>) the handler returns the text
  \<^verbatim>\<open>{"predictions": [{"item_id": 0, "prediction": 0.9}, {"item_id": 1, "prediction": 0.2}]}\<close>,
  with the spaces that \<^verbatim>\<open>json.dumps\<close> writes after every comma and colon, together
  with the accept header; it has made one POST of the body.
\<close>

theorem scenario_ranking:
  assumes \<open>request_content_type context = Some ''application/json''\<close>
    and \<open>bytes_decode lib data = Inr body\<close>
    and \<open>json_loads lib body =
          Inr (JObj [(''instances'', JArr [JObj [(''input_2'', JArr [JInt 0, JInt 1, JInt 0])],
                                          JObj [(''input_2'', JArr [JInt 1, JInt 0, JInt 0])]])])\<close>
    and \<open>requests_post lib (rest_uri context) body = Inr reply\<close>
    and \<open>status_code reply = 200\<close>
    and \<open>bytes_decode lib (content reply) = Inr reply_text\<close>
    and \<open>json_loads lib reply_text =
          Inr (JObj [(''predictions'', JArr [JArr [JFloat lo], JArr [JFloat hi]])])\<close>
    and \<open>lo < hi\<close>
    and \<open>float_repr lib lo = ''0.2''\<close>
    and \<open>float_repr lib hi = ''0.9''\<close>
  shows \<open>handler lib data context =
    (Inr (''{"predictions": [{"item_id": 0, "prediction": 0.9}, {"item_id": 1, "prediction": 0.2}]}'',
          accept_header context),
     [(rest_uri context, body)])\<close>
proof -
  have instances: "py_getitem
        (JObj [(''instances'', JArr [JObj [(''input_2'', JArr [JInt 0, JInt 1, JInt 0])],
                                     JObj [(''input_2'', JArr [JInt 1, JInt 0, JInt 0])]])])
        ''instances''
      = Inr (JArr [JObj [(''input_2'', JArr [JInt 0, JInt 1, JInt 0])],
                   JObj [(''input_2'', JArr [JInt 1, JInt 0, JInt 0])]])"
    by simp
  have ids: "handler_item_ids lib data context = Inr (body, [Suc 0, 0])"
    by (rule handler_item_ids_valid [OF assms(1-3) instances]) (simp add: instance_item_id_def)
  have paired: "handler_item_prediction_scores lib context [Suc 0, 0] (Inr reply)
      = Inr ([JObj [(''item_id'', JInt 1), (''prediction'', JFloat lo)],
              JObj [(''item_id'', JInt 0), (''prediction'', JFloat hi)]], accept_header context)"
    by (rule handler_item_prediction_scores_valid
        [OF assms(5-7), where predictions = "[JArr [JFloat lo], JArr [JFloat hi]]"])
      (simp_all add: item_prediction_score_def)
  have sorted: "list_sort order_item_predictions True
        [JObj [(''item_id'', JInt 1), (''prediction'', JFloat lo)],
         JObj [(''item_id'', JInt 0), (''prediction'', JFloat hi)]]
      = Inr [JObj [(''item_id'', JInt 0), (''prediction'', JFloat hi)],
             JObj [(''item_id'', JInt 1), (''prediction'', JFloat lo)]]"
    using assms(8) by (simp add: list_sort_def listsort_def bisect.simps num_lt_def order_item_predictions_def)
  show ?thesis
    by (simp add: handler_def ids assms(4) paired sorted assms(9,10) show_int_0 show_int_1
        encode_string_def escape_char_def)
qed

theorem scenario_ranking_witness:
  \<open>handler scenario_library scenario_request json_context =
    (Inr (''{"predictions": [{"item_id": 0, "prediction": 0.9}, {"item_id": 1, "prediction": 0.2}]}'',
          Some ''application/json''),
     [(''http://localhost:8501/v1/models/ncf:predict'', scenario_request)])\<close>
  using scenario_ranking [of json_context scenario_library scenario_request scenario_request
      "\<lparr>status_code = 200, content = scenario_reply\<rparr>" scenario_reply double_0_2 double_0_9]
  by (simp add: scenario_library_def table_library_simps json_context_def
      scenario_request_def scenario_request_json_def scenario_reply_def
      scenario_reply_json_def double_0_2_def double_0_9_def)

text \<open>The text without those spaces, \<^verbatim>\<open>{"predictions":[{"item_id":0,...\<close>, is not what
  is returned.\<close>

theorem scenario_compact_text_counterexample:
  \<open>fst (handler scenario_library scenario_request json_context) \<noteq>
    Inr (''{"predictions":[{"item_id":0,"prediction":0.9},{"item_id":1,"prediction":0.2}]}'',
         accept_header json_context)\<close>
  by (simp add: scenario_run)

text \<open>
  C2, as amended. Whenever the handler returns, the text it returns is the
  serialisation of \<^verbatim>\<open>{"predictions": entries}\<close> for the list that line 32 has made of
  the entries of the batch; it holds the entries of the batch, each as often as the
  batch does. An entry is written as the pair of its item id and its score. When
  every score of the batch is a number other than NaN, the scores do not increase
  from the first entry to the last: of any two entries, the earlier one has a score
  greater than or equal to the score of the later one.
\<close>

theorem predictions_non_increasing:
  assumes "fst (handler lib data context) = Inr (out, ct)"
  shows "\<exists>body ids batch ranked.
    handler_item_ids lib data context = Inr (body, ids)
    \<and> handler_item_prediction_scores lib context ids
         (requests_post lib (rest_uri context) body) = Inr (map ranked_prediction batch, ct)
    \<and> list_sort order_item_predictions True (map ranked_prediction batch)
         = Inr (map ranked_prediction ranked)
    \<and> out = json_dumps (float_repr lib)
              (JObj [(''predictions'', JArr (map ranked_prediction ranked))])
    \<and> mset ranked = mset batch
    \<and> ((\<forall>p\<in>set batch. is_number (snd p) \<and> snd p \<noteq> JNaN)
         \<longrightarrow> sorted_wrt (\<lambda>a b. num_ge (snd a) (snd b) = Inr True) ranked)"
  using assms
proof (cases rule: handler_ranked)
  case (1 body ids batch ranked)
  from ranking_non_increasing [OF 1(4,5)] 1(1,2,4,5,6) show ?thesis by blast
qed

theorem predictions_non_increasing_witness:
  \<open>fst (handler scenario_library scenario_request json_context) =
     Inr (''{"predictions": [{"item_id": 0, "prediction": 0.9}, {"item_id": 1, "prediction": 0.2}]}'',
          Some ''application/json'')
   \<and> ''{"predictions": [{"item_id": 0, "prediction": 0.9}, {"item_id": 1, "prediction": 0.2}]}''
     = json_dumps (float_repr scenario_library)
         (JObj [(''predictions'',
                 JArr (map ranked_prediction [(0, JFloat double_0_9), (1, JFloat double_0_2)]))])
   \<and> sorted_wrt (\<lambda>a b. num_ge (snd a) (snd b) = Inr True)
       [(0 :: nat, JFloat double_0_9), (1, JFloat double_0_2)]\<close>
proof -
  let ?out = \<open>''{"predictions": [{"item_id": 0, "prediction": 0.9}, {"item_id": 1, "prediction": 0.2}]}''\<close>
  have run: "fst (handler scenario_library scenario_request json_context)
               = Inr (?out, Some ''application/json'')"
    by (simp add: scenario_run)
  from predictions_non_increasing [OF run] obtain body ids batch ranked where
    ids: "handler_item_ids scenario_library scenario_request json_context = Inr (body, ids)"
    and batch: "handler_item_prediction_scores scenario_library json_context ids
         (requests_post scenario_library (rest_uri json_context) body)
         = Inr (map ranked_prediction batch, Some ''application/json'')"
    and ranked: "list_sort order_item_predictions True (map ranked_prediction batch)
         = Inr (map ranked_prediction ranked)"
    and out: "?out = json_dumps (float_repr scenario_library)
              (JObj [(''predictions'', JArr (map ranked_prediction ranked))])"
    and ordered: "(\<forall>p\<in>set batch. is_number (snd p) \<and> snd p \<noteq> JNaN)
         \<longrightarrow> sorted_wrt (\<lambda>a b. num_ge (snd a) (snd b) = Inr True) ranked"
    by blast
  from ids have body: "body = scenario_request" and "ids = [1, 0]"
    by (simp_all add: scenario_stages)
  with batch have b: "batch = [(1, JFloat double_0_2), (0, JFloat double_0_9)]"
    by (simp only: scenario_stages sum.inject prod.inject ranked_prediction_map_eq)
  with ranked have r: "ranked = [(0, JFloat double_0_9), (1, JFloat double_0_2)]"
    by (simp only: scenario_stages sum.inject ranked_prediction_map_eq)
  from ordered b have "sorted_wrt (\<lambda>a b. num_ge (snd a) (snd b) = Inr True) ranked"
    by simp
  with run out r show ?thesis by simp
qed


text \<open>
  With a NaN among the scores, which \<^verbatim>\<open>json.loads\<close> reads from the token \<^verbatim>\<open>NaN\<close>, the
  scores can increase. No comparison with NaN is true, so the sort finds the reversed
  list of the scores 0.5, NaN and 0.9 to be one ascending run and leaves the list as
  it is: 0.5 stands before NaN and before 0.9.
\<close>

theorem nan_ranking_counterexample:
  \<open>handler nan_library nan_request json_context =
    (Inr (''{"predictions": [{"item_id": 0, "prediction": 0.5}, {"item_id": 1, "prediction": NaN}, {"item_id": 2, "prediction": 0.9}]}'',
          Some ''application/json''),
     [(''http://localhost:8501/v1/models/ncf:predict'', nan_request)])
   \<and> list_sort order_item_predictions True
       (map ranked_prediction [(0, JFloat (1 / 2)), (1, JNaN), (2, JFloat double_0_9)])
     = Inr (map ranked_prediction [(0, JFloat (1 / 2)), (1, JNaN), (2, JFloat double_0_9)])
   \<and> num_ge (JFloat (1 / 2)) JNaN = Inr False
   \<and> num_ge (JFloat (1 / 2)) (JFloat double_0_9) = Inr False
   \<and> py_lt (JFloat (1 / 2)) (JFloat double_0_9) = Inr True
   \<and> \<not> sorted_wrt (\<lambda>a b. num_ge (snd a) (snd b) = Inr True)
         [(0 :: nat, JFloat (1 / 2)), (1, JNaN), (2, JFloat double_0_9)]\<close>
  using nan_run nan_sort by (simp add: num_ge_def num_lt_def double_0_9_def)







text \<open>
  C5. Once the request has passed lines 15 to 22 and the POST has returned a response
  whose status code is not 200, \<^verbatim>\<open>_process_output\<close> raises a \<^verbatim>\<open>ValueError\<close> whose
  message is exactly the decoded body of the response, and the handler raises it: no
  ranking is returned. The one POST has been made.
\<close>

theorem model_server_error:
  assumes "handler_item_ids lib data context = Inr (body, ids)"
    and "requests_post lib (rest_uri context) body = Inr reply"
    and "status_code reply \<noteq> 200"
    and "bytes_decode lib (content reply) = Inr message"
  shows "process_output lib reply context = Inl (ValueError message)
    \<and> handler lib data context = (Inl (ValueError message), [(rest_uri context, body)])"
  using assms
  by (simp add: handler_def handler_item_prediction_scores_def process_output_def)

theorem model_server_error_witness:
  "handler_item_ids overloaded_library scenario_request json_context
      = Inr (scenario_request, [1, 0])
   \<and> process_output overloaded_library \<lparr>status_code = 500, content = ''server overloaded''\<rparr>
        json_context = Inl (ValueError ''server overloaded'')
   \<and> handler overloaded_library scenario_request json_context
      = (Inl (ValueError ''server overloaded''), [(rest_uri json_context, scenario_request)])"
proof -
  have ids: "handler_item_ids overloaded_library scenario_request json_context
      = Inr (scenario_request, [1, 0])"
    by (rule handler_item_ids_valid [where request = scenario_request_json
          and instances = "[JObj [(''input_2'', JArr [JInt 0, JInt 1, JInt 0])],
                           JObj [(''input_2'', JArr [JInt 1, JInt 0, JInt 0])]]"])
      (simp_all add: overloaded_library_def table_library_simps json_context_def
        scenario_request_json_def instance_item_id_def)
  from model_server_error [OF ids, of "\<lparr>status_code = 500, content = ''server overloaded''\<rparr>"
      "''server overloaded''"]
  show ?thesis using ids
    by (simp add: overloaded_library_def table_library_simps)
qed

text \<open>
  C6. If the one-hot list of the k-th instance of a request has no element equal to 1,
  the handler raises an exception and makes no POST: there is no output for any
  instance. When the instances before the k-th each yield an item id, the exception
  is the \<^verbatim>\<open>ValueError\<close> of \<^verbatim>\<open>list.index\<close>, \<^verbatim>\<open>1 is not in list\<close>. The loop skips
  nothing: whenever it ends normally, it has appended one id for each instance.
\<close>

theorem missing_one_fails:
  assumes "request_content_type context = Some ''application/json''"
    and "bytes_decode lib data = Inr body"
    and "json_loads lib body = Inr request"
    and "py_getitem request ''instances'' = Inr (JArr instances)"
    and "k < length instances"
    and "py_getitem (instances ! k) ''input_2'' = Inr (JArr vec)"
    and "\<forall>x\<in>set vec. \<not> py_eq_int x 1"
  shows "(\<exists>e. handler lib data context = (Inl e, [])
      \<and> ((\<forall>j<k. \<exists>i. instance_item_id (instances ! j) = Inr i)
           \<longrightarrow> e = ValueError ''1 is not in list''))
    \<and> (\<forall>xs acc ids. item_ids_loop xs acc = Inr ids \<longrightarrow> length ids = length acc + length xs)"
proof -
  from assms(6,7) have fail: "instance_item_id (instances ! k) = Inl (ValueError ''1 is not in list'')"
    by (simp add: instance_item_id_def list_index_absent)
  obtain e where e: "traverse instance_item_id instances = Inl e"
  proof (cases "traverse instance_item_id instances")
    case (Inl e)
    then show thesis by (rule that)
  next
    case (Inr ids)
    from traverse_nth [OF this assms(5)] fail show thesis by simp
  qed
  from traverse_Inl [OF e] obtain k' where k': "k' < length instances"
    "instance_item_id (instances ! k') = Inl e"
    "\<forall>j<k'. \<exists>y. instance_item_id (instances ! j) = Inr y" by blast
  have "handler_item_ids lib data context = Inl e"
    using assms(1-4) e
    by (simp add: handler_item_ids_def process_input_json item_ids_loop_traverse)
  then have failed: "handler lib data context = (Inl e, [])"
    by (simp add: handler_def)
  have "e = ValueError ''1 is not in list''"
    if ok: "\<forall>j<k. \<exists>i. instance_item_id (instances ! j) = Inr i"
  proof -
    from k'(3) fail have "\<not> k < k'" by auto
    moreover from ok k'(2) have "\<not> k' < k" by auto
    ultimately have "k' = k" by simp
    with k'(2) fail show ?thesis by simp
  qed
  with failed item_ids_loop_length show ?thesis by blast
qed

theorem missing_one_fails_witness:
  "handler no_one_library no_one_request json_context
     = (Inl (ValueError ''1 is not in list''), [])"
proof -
  have "\<forall>j<1. \<exists>i. instance_item_id (no_one_instances ! j) = Inr i"
    by (simp add: no_one_instances_def instance_item_id_def)
  with missing_one_fails [of json_context no_one_library no_one_request no_one_request
      "JObj [(''instances'', JArr no_one_instances)]" no_one_instances 1 "[JInt 0, JInt 0]"]
  show ?thesis
    by (auto simp add: no_one_library_def table_library_simps json_context_def
        no_one_instances_def)
qed

text \<open>
  C7. For an instance whose one-hot list has an element equal to 1, the item id is the
  zero-based index of the first such element: that element equals 1 and none before it
  does. A second 1 further on raises nothing. This is the id the loop stores at the
  position of the instance.
\<close>

theorem item_id_is_first_one:
  assumes "k < length instances"
    and "py_getitem (instances ! k) ''input_2'' = Inr (JArr vec)"
    and "\<exists>x\<in>set vec. py_eq_int x 1"
  shows "\<exists>i. instance_item_id (instances ! k) = Inr i
    \<and> i < length vec \<and> py_eq_int (vec ! i) 1 \<and> (\<forall>j<i. \<not> py_eq_int (vec ! j) 1)
    \<and> (\<forall>ids. item_ids_loop instances [] = Inr ids \<longrightarrow> ids ! k = i)"
proof -
  from list_index_found [OF assms(3)] obtain i where i: "list_index vec = Inr i" ..
  with assms(2) have id: "instance_item_id (instances ! k) = Inr i"
    by (simp add: instance_item_id_def)
  have "ids ! k = i" if "item_ids_loop instances [] = Inr ids" for ids
  proof -
    from that have "traverse instance_item_id instances = Inr ids"
      by (simp add: item_ids_loop_traverse split: sum.splits)
    from traverse_nth [OF this assms(1)] id show ?thesis by simp
  qed
  with id list_index_Inr [OF i] show ?thesis by blast
qed

theorem item_id_is_first_one_witness:
  "0 < length no_one_instances
   \<and> py_getitem (no_one_instances ! 0) ''input_2'' = Inr (JArr [JInt 0, JInt 1, JInt 1])
   \<and> (\<exists>i. instance_item_id (no_one_instances ! 0) = Inr i
    \<and> i < length [JInt 0, JInt 1, JInt 1] \<and> py_eq_int ([JInt 0, JInt 1, JInt 1] ! i) 1
    \<and> (\<forall>j<i. \<not> py_eq_int ([JInt 0, JInt 1, JInt 1] ! j) 1)
    \<and> (\<forall>ids. item_ids_loop no_one_instances [] = Inr ids \<longrightarrow> ids ! 0 = i))
   \<and> instance_item_id (no_one_instances ! 0) = Inr 1"
  using item_id_is_first_one [of 0 no_one_instances "[JInt 0, JInt 1, JInt 1]"]
  by (simp add: no_one_instances_def instance_item_id_def)

text \<open>
  C8. For a request whose \<^verbatim>\<open>instances\<close> is the empty list, the handler makes exactly one
  POST, of the decoded body as it is, and returns the text \<^verbatim>\<open>{"predictions": []}\<close>,
  whatever list the status-200 reply has under \<^verbatim>\<open>predictions\<close>.
\<close>

theorem empty_batch:
  assumes \<open>request_content_type context = Some ''application/json''\<close>
    and \<open>bytes_decode lib data = Inr body\<close>
    and \<open>json_loads lib body = Inr request\<close>
    and \<open>py_getitem request ''instances'' = Inr (JArr [])\<close>
    and \<open>requests_post lib (rest_uri context) body = Inr reply\<close>
    and \<open>status_code reply = 200\<close>
    and \<open>bytes_decode lib (content reply) = Inr reply_text\<close>
    and \<open>json_loads lib reply_text = Inr reply_json\<close>
    and \<open>py_getitem reply_json ''predictions'' = Inr (JArr predictions)\<close>
  shows \<open>handler lib data context =
    (Inr (''{"predictions": []}'', accept_header context), [(rest_uri context, body)])\<close>
proof -
  have ids: "handler_item_ids lib data context = Inr (body, [])"
    by (rule handler_item_ids_valid [OF assms(1-4)]) simp
  have paired: "handler_item_prediction_scores lib context [] (Inr reply)
      = Inr ([], accept_header context)"
    by (rule handler_item_prediction_scores_valid [OF assms(6-9)]) simp
  show ?thesis
    by (simp add: handler_def ids assms(5) paired list_sort_def listsort_def bisect.simps num_lt_def encode_string_def escape_char_def)
qed

theorem empty_batch_witness:
  \<open>handler empty_library empty_request json_context =
    (Inr (''{"predictions": []}'', Some ''application/json''),
     [(''http://localhost:8501/v1/models/ncf:predict'', empty_request)])\<close>
  using empty_batch [of json_context empty_library empty_request empty_request
      "JObj [(''instances'', JArr [])]" "\<lparr>status_code = 200, content = scenario_reply\<rparr>"
      scenario_reply scenario_reply_json "[JArr [JFloat double_0_2], JArr [JFloat double_0_9]]"]
  by (simp add: empty_library_def table_library_simps json_context_def empty_request_def
      scenario_reply_def scenario_reply_json_def)

text \<open>
  C9, as amended. Whenever the handler returns, the ranking is what line 32 makes of
  the entries of the batch, which stand in the order of the batch, the k-th entry
  carrying the item id of the k-th instance. An entry is written as the pair of its
  item id and its score. When every score of the batch is a number other than NaN,
  the entries whose score equals a given value stand in the ranking in the order in
  which they stand in the batch.
\<close>

theorem ranking_stable:
  assumes "fst (handler lib data context) = Inr (out, ct)"
  shows "\<exists>body ids batch ranked.
    handler_item_ids lib data context = Inr (body, ids)
    \<and> handler_item_prediction_scores lib context ids
         (requests_post lib (rest_uri context) body) = Inr (map ranked_prediction batch, ct)
    \<and> map fst batch = take (length batch) ids
    \<and> list_sort order_item_predictions True (map ranked_prediction batch)
         = Inr (map ranked_prediction ranked)
    \<and> out = json_dumps (float_repr lib)
              (JObj [(''predictions'', JArr (map ranked_prediction ranked))])
    \<and> ((\<forall>p\<in>set batch. is_number (snd p) \<and> snd p \<noteq> JNaN)
         \<longrightarrow> (\<forall>v. filter (\<lambda>p. py_eq (snd p) v) ranked = filter (\<lambda>p. py_eq (snd p) v) batch))"
  using assms
proof (cases rule: handler_ranked)
  case (1 body ids batch ranked)
  from ranking_keeps_ties [OF 1(4,5)] 1(1,2,3,4,6) show ?thesis by blast
qed

theorem ranking_stable_witness:
  \<open>fst (handler tie_library tie_request json_context) =
     Inr (''{"predictions": [{"item_id": 0, "prediction": 2}, {"item_id": 1, "prediction": 1}, {"item_id": 2, "prediction": 1}]}'',
          Some ''application/json'')
   \<and> ''{"predictions": [{"item_id": 0, "prediction": 2}, {"item_id": 1, "prediction": 1}, {"item_id": 2, "prediction": 1}]}''
     = json_dumps (float_repr tie_library)
         (JObj [(''predictions'',
                 JArr (map ranked_prediction [(0, JInt 2), (1, JInt 1), (2, JInt 1)]))])
   \<and> filter (\<lambda>p. py_eq (snd p) (JInt 1)) [(0 :: nat, JInt 2), (1, JInt 1), (2, JInt 1)]
     = filter (\<lambda>p. py_eq (snd p) (JInt 1)) [(1, JInt 1), (0, JInt 2), (2, JInt 1)]
   \<and> filter (\<lambda>p. py_eq (snd p) (JInt 1)) [(1 :: nat, JInt 1), (0, JInt 2), (2, JInt 1)]
     = [(1, JInt 1), (2, JInt 1)]\<close>
proof -
  let ?out = \<open>''{"predictions": [{"item_id": 0, "prediction": 2}, {"item_id": 1, "prediction": 1}, {"item_id": 2, "prediction": 1}]}''\<close>
  have run: "fst (handler tie_library tie_request json_context)
               = Inr (?out, Some ''application/json'')"
    by (simp add: tie_run)
  from ranking_stable [OF run] obtain body ids batch ranked where
    ids: "handler_item_ids tie_library tie_request json_context = Inr (body, ids)"
    and batch: "handler_item_prediction_scores tie_library json_context ids
         (requests_post tie_library (rest_uri json_context) body)
         = Inr (map ranked_prediction batch, Some ''application/json'')"
    and ranked: "list_sort order_item_predictions True (map ranked_prediction batch)
         = Inr (map ranked_prediction ranked)"
    and out: "?out = json_dumps (float_repr tie_library)
              (JObj [(''predictions'', JArr (map ranked_prediction ranked))])"
    and stable: "(\<forall>p\<in>set batch. is_number (snd p) \<and> snd p \<noteq> JNaN)
         \<longrightarrow> (\<forall>v. filter (\<lambda>p. py_eq (snd p) v) ranked = filter (\<lambda>p. py_eq (snd p) v) batch)"
    by blast
  from ids have body: "body = tie_request" and "ids = [1, 0, 2]"
    by (simp_all add: tie_stages)
  with batch have b: "batch = [(1, JInt 1), (0, JInt 2), (2, JInt 1)]"
    by (simp only: tie_stages sum.inject prod.inject ranked_prediction_map_eq)
  with ranked have r: "ranked = [(0, JInt 2), (1, JInt 1), (2, JInt 1)]"
    by (simp only: tie_stages sum.inject ranked_prediction_map_eq)
  from stable b
  have "filter (\<lambda>p. py_eq (snd p) (JInt 1)) ranked = filter (\<lambda>p. py_eq (snd p) (JInt 1)) batch"
    by simp
  with run out r b show ?thesis by simp
qed

text \<open>
  With a NaN among the scores, entries of one and the same score can change places.
  In the batch of the items 0 to 6 with the scores 0.0, 0.0, NaN, 0.0, 0.0, 0.0 and
  1.0, the ranking has the item 1 before the item 0, both with the score 0.0.
\<close>

theorem nan_exchanges_ties_counterexample:
  \<open>handler seven_library seven_request json_context =
    (Inr (''{"predictions": [{"item_id": 1, "prediction": 0.0}, {"item_id": 2, "prediction": NaN}, {"item_id": 6, "prediction": 1.0}, {"item_id": 0, "prediction": 0.0}, {"item_id": 3, "prediction": 0.0}, {"item_id": 4, "prediction": 0.0}, {"item_id": 5, "prediction": 0.0}]}'',
          Some ''application/json''),
     [(''http://localhost:8501/v1/models/ncf:predict'', seven_request)])
   \<and> list_sort order_item_predictions True
       (map ranked_prediction
          [(0, JFloat 0), (1, JFloat 0), (2, JNaN), (3, JFloat 0), (4, JFloat 0),
           (5, JFloat 0), (6, JFloat 1)])
     = Inr (map ranked_prediction
          [(1, JFloat 0), (2, JNaN), (6, JFloat 1), (0, JFloat 0), (3, JFloat 0),
           (4, JFloat 0), (5, JFloat 0)])
   \<and> filter (\<lambda>p. py_eq (snd p) (JFloat 0))
        [(0 :: nat, JFloat 0), (1, JFloat 0), (2, JNaN), (3, JFloat 0), (4, JFloat 0),
         (5, JFloat 0), (6, JFloat 1)]
     = [(0, JFloat 0), (1, JFloat 0), (3, JFloat 0), (4, JFloat 0), (5, JFloat 0)]
   \<and> filter (\<lambda>p. py_eq (snd p) (JFloat 0))
        [(1 :: nat, JFloat 0), (2, JNaN), (6, JFloat 1), (0, JFloat 0), (3, JFloat 0),
         (4, JFloat 0), (5, JFloat 0)]
     = [(1, JFloat 0), (0, JFloat 0), (3, JFloat 0), (4, JFloat 0), (5, JFloat 0)]\<close>
  using seven_run seven_sort by simp

text \<open>
  C10. The handler compares no lengths. For a request whose instances each have a 1, and
  a status-200 reply of which the predictions that face an instance are non-empty
  lists starting with a number, the handler returns; the list \<open>paired\<close> couples the k-th
  item id with the first element of the k-th prediction as far as both lists go, and
  the ranking is a rearrangement of \<open>paired\<close>: its length is the smaller of the two
  lengths, the ids or predictions beyond it being dropped.
\<close>

theorem length_mismatch_truncates:
  assumes "request_content_type context = Some ''application/json''"
    and "bytes_decode lib data = Inr body"
    and "json_loads lib body = Inr request"
    and "py_getitem request ''instances'' = Inr (JArr instances)"
    and "\<forall>inst\<in>set instances. \<exists>vec. py_getitem inst ''input_2'' = Inr (JArr vec)
           \<and> (\<exists>x\<in>set vec. py_eq_int x 1)"
    and "requests_post lib (rest_uri context) body = Inr reply"
    and "status_code reply = 200"
    and "bytes_decode lib (content reply) = Inr reply_text"
    and "json_loads lib reply_text = Inr reply_json"
    and "py_getitem reply_json ''predictions'' = Inr (JArr predictions)"
    and "\<forall>p\<in>set (take (length instances) predictions).
           \<exists>x xs v. p = JArr (x # xs) \<and> num_val x = Some v"
  shows "\<exists>ids paired entries.
    handler lib data context =
      (Inr (json_dumps (float_repr lib) (JObj [(''predictions'', JArr entries)]),
            accept_header context),
       [(rest_uri context, body)])
    \<and> length entries = min (length instances) (length predictions)
    \<and> traverse instance_item_id instances = Inr ids
    \<and> list_all2 (\<lambda>e ip. \<exists>p0. py_getitem0 (snd ip) = Inr p0
          \<and> e = JObj [(''item_id'', JInt (int (fst ip))), (''prediction'', p0)])
        paired (zip ids predictions)
    \<and> list_sort order_item_predictions True paired = Inr entries
    \<and> mset entries = mset paired"
proof -
  from handler_ranks [OF assms] obtain ids paired entries where
    r: "traverse instance_item_id instances = Inr ids"
      "length ids = length instances"
      "traverse item_prediction_score (zip ids predictions) = Inr paired"
      "list_sort order_item_predictions True paired = Inr entries"
      "handler lib data context =
          (Inr (json_dumps (float_repr lib) (JObj [(''predictions'', JArr entries)]),
                accept_header context),
           [(rest_uri context, body)])" .
  from list_sort_mset [OF r(4)] have m: "mset entries = mset paired" .
  then have "length entries = length paired" by (rule mset_eq_length)
  with paired_item_ids(1) [OF r(3)] r(2)
  have "length entries = min (length instances) (length predictions)" by simp
  with r(1,4,5) paired_entries [OF r(3)] m show ?thesis by blast
qed

theorem length_mismatch_truncates_witness:
  \<open>handler short_library scenario_request json_context =
    (Inr (''{"predictions": [{"item_id": 1, "prediction": 0.9}]}'', Some ''application/json''),
     [(''http://localhost:8501/v1/models/ncf:predict'', scenario_request)])
   \<and> handler long_library scenario_request json_context =
    (Inr (''{"predictions": [{"item_id": 0, "prediction": 0.9}, {"item_id": 1, "prediction": 0.2}]}'',
          Some ''application/json''),
     [(''http://localhost:8501/v1/models/ncf:predict'', scenario_request)])
   \<and> (\<exists>ids paired entries.
    handler short_library scenario_request json_context =
      (Inr (json_dumps (float_repr short_library) (JObj [(''predictions'', JArr entries)]),
            accept_header json_context),
       [(rest_uri json_context, scenario_request)])
    \<and> length entries = min 2 1
    \<and> traverse instance_item_id
          [JObj [(''input_2'', JArr [JInt 0, JInt 1, JInt 0])],
           JObj [(''input_2'', JArr [JInt 1, JInt 0, JInt 0])]] = Inr ids
    \<and> list_all2 (\<lambda>e ip. \<exists>p0. py_getitem0 (snd ip) = Inr p0
          \<and> e = JObj [(''item_id'', JInt (int (fst ip))), (''prediction'', p0)])
        paired (zip ids [JArr [JFloat double_0_9]])
    \<and> list_sort order_item_predictions True paired = Inr entries
    \<and> mset entries = mset paired)\<close>
  using length_mismatch_truncates [of json_context short_library scenario_request
      scenario_request scenario_request_json
      "[JObj [(''input_2'', JArr [JInt 0, JInt 1, JInt 0])],
        JObj [(''input_2'', JArr [JInt 1, JInt 0, JInt 0])]]"
      "\<lparr>status_code = 200, content = short_reply\<rparr>" short_reply
      "JObj [(''predictions'', JArr [JArr [JFloat double_0_9]])]" "[JArr [JFloat double_0_9]]"]
    short_run long_run
  by (simp add: short_library_def table_library_simps json_context_def
      scenario_request_def scenario_request_json_def short_reply_def)

end
